theory Spec2Isabelle
  imports Complex_Main "HOL-Library.AList"
begin

text \<open>
  A shallow embedding of the knowledge service: the ingestion agent, the alignment,
  contradiction and research agents, and the two workflows that run them as graphs of
  steps. Pure functions of the source are functions here; a function that can raise
  returns a sum; the external collaborators (splitter, embedding model, language model,
  vector store, graph store, clock) are parameters of a run.
\<close>

section \<open>Python strings\<close>

text \<open>
  A Python \<open>str\<close> is modelled as a \<open>string\<close> whose characters are the code points
  below 256. \<open>str.split()\<close> and \<open>str.strip()\<close> without argument cut at the code
  points for which \<open>str.isspace\<close> holds; \<open>str.lower()\<close> moves A-Z and the upper-case
  letters of the Latin-1 block by 32.
\<close>

definition py_isspace :: "char \<Rightarrow> bool" where
  "py_isspace c = (of_char c \<in> {9, 10, 11, 12, 13, 28, 29, 30, 31, 32, 133, 160 :: nat})"

definition py_strip :: "string \<Rightarrow> string" where
  "py_strip s = rev (dropWhile py_isspace (rev (dropWhile py_isspace s)))"

fun split_from :: "string \<Rightarrow> string \<Rightarrow> string list" where
  "split_from w [] = (if w = [] then [] else [w])"
| "split_from w (c # cs) =
     (if py_isspace c then (if w = [] then split_from [] cs else w # split_from [] cs)
      else split_from (w @ [c]) cs)"

definition py_split :: "string \<Rightarrow> string list" where
  "py_split s = split_from [] s"

definition lower_char :: "char \<Rightarrow> char" where
  "lower_char c =
     (let n = (of_char c :: nat)
      in if (65 \<le> n \<and> n \<le> 90) \<or> (192 \<le> n \<and> n \<le> 222 \<and> n \<noteq> 215)
         then char_of (n + 32) else c)"

definition py_lower :: "string \<Rightarrow> string" where
  "py_lower s = map lower_char s"

definition py_count :: "string \<Rightarrow> char \<Rightarrow> nat" where
  "py_count s c = length (filter (\<lambda>d. d = c) s)"

fun starts_with :: "string \<Rightarrow> string \<Rightarrow> bool" where
  "starts_with [] hay = True"
| "starts_with (p # ps) [] = False"
| "starts_with (p # ps) (h # hs) = (p = h \<and> starts_with ps hs)"

text \<open>\<open>py_in needle hay\<close> is Python's \<open>needle in hay\<close> on two strings.\<close>

fun py_in :: "string \<Rightarrow> string \<Rightarrow> bool" where
  "py_in needle [] = (needle = [])"
| "py_in needle (h # hs) = (starts_with needle (h # hs) \<or> py_in needle hs)"

text \<open>
  \<open>max(xs, default=d)\<close> on strings: the first greatest element under Python's order
  of strings (code point by code point, a proper prefix is smaller).
\<close>

fun str_less :: "string \<Rightarrow> string \<Rightarrow> bool" where
  "str_less [] [] = False"
| "str_less [] (y # ys) = True"
| "str_less (x # xs) [] = False"
| "str_less (x # xs) (y # ys) =
     ((of_char x :: nat) < of_char y \<or> (x = y \<and> str_less xs ys))"

fun py_max_str :: "string list \<Rightarrow> string \<Rightarrow> string" where
  "py_max_str [] d = d"
| "py_max_str (x # xs) d = fold (\<lambda>y m. if str_less m y then y else m) xs x"

fun py_join :: "string \<Rightarrow> string list \<Rightarrow> string" where
  "py_join sep [] = []"
| "py_join sep [x] = x"
| "py_join sep (x # y # ys) = x @ sep @ py_join sep (y # ys)"

text \<open>\<open>str(n)\<close> for a non-negative integer, as the f-strings format an index.\<close>

function str_nat :: "nat \<Rightarrow> string" where
  "str_nat n =
     (if n < 10 then [char_of (48 + n)]
      else str_nat (n div 10) @ [char_of (48 + n mod 10)])"
  by pat_completeness auto
termination
  by (relation "measure (\<lambda>n. n)") auto

declare str_nat.simps [simp del]

section \<open>Exceptions\<close>

text \<open>
  An exception is a value: its class name and the text \<open>str(e)\<close>. A function that can
  raise returns \<open>exn + 'a\<close>, \<open>Inl\<close> for the exception.
\<close>

datatype exn = Exn (exn_class: string) (exn_str: string)

section \<open>State models (models/state.py)\<close>

text \<open>
  Python floats are modelled as reals. A dict with a fixed set of keys is a record; a key
  that a step adds to the state later is an \<open>option\<close> field, \<open>None\<close> while the key is
  absent. A field of Python type \<open>Optional[T]\<close> is an \<open>option\<close> as well. A dict with
  arbitrary keys (\<open>Dict[str, Any]\<close>) is an association list in insertion order.
\<close>

datatype pyval = PNone | PInt int | PStr string

type_synonym pydict = "(string \<times> pyval) list"

type_synonym embedding = "real list"

record 'm KnowledgeNode =
  n_id :: string
  n_content :: string
  n_embedding :: "embedding option"
  n_metadata :: 'm
  n_confidence :: real
  n_created_at :: string
  n_updated_at :: string

record KnowledgeEdge =
  from_id :: string
  to_id :: string
  e_type :: string
  e_properties :: "(string \<times> real) list"
  e_confidence :: real

record ValidationResult =
  is_valid :: bool
  v_confidence :: real
  issues :: "string list"
  suggestions :: "string list"

record ContradictionAnalysis =
  has_contradiction :: bool
  conflicting_nodes :: "string list"
  severity :: string
  resolution_suggestions :: "string list"

text \<open>The dicts that \<open>analyze_alignment\<close> builds and returns.\<close>

record Alignment =
  new_node :: string
  existing_node :: string
  similarity :: real
  relationship_type :: string

record AlignmentResult =
  alignments :: "Alignment list"
  new_relationships :: "KnowledgeEdge list"
  integration_confidence :: real

record WorkflowState =
  workflow_id :: string
  status :: string
  current_step :: string
  start_time :: string
  end_time :: "string option"
  error :: "string option"

text \<open>
  The ingestion state: the declared keys of \<open>KnowledgeIngestionState\<close>, then the keys
  that the workflow steps add (\<open>validation_result\<close>, \<open>embeddings_data\<close>,
  \<open>alignment_result\<close>, \<open>contradiction_result\<close>, \<open>embeddings_stored\<close>).
\<close>

record KnowledgeIngestionState = WorkflowState +
  content :: string
  source :: "string option"
  metadata :: pydict
  nodes_created :: "string list"
  edges_created :: "string list"
  embedding_generated :: bool
  graph_updated :: bool
  validation_result :: "ValidationResult option"
  embeddings_data :: "(string \<times> embedding \<times> pydict KnowledgeNode) list option"
  alignment_result :: "AlignmentResult option"
  contradiction_result :: "ContradictionAnalysis option"
  embeddings_stored :: "bool option"

text \<open>
  The agents declare their node arguments as \<open>List[KnowledgeNode]\<close>, and the ingestion
  workflow passes them \<open>nodes_created\<close>, a list of node-id strings. A list element is
  therefore either object; subscripting a \<open>str\<close> with a string key raises
  \<open>TypeError\<close>, subscripting a node dict gives the field.
\<close>

datatype 'm pyobj = PyStr string | PyNode "'m KnowledgeNode"

fun as_node :: "'m pyobj \<Rightarrow> exn + 'm KnowledgeNode" where
  "as_node (PyStr s) = Inl (Exn ''TypeError'' ''string indices must be integers'')"
| "as_node (PyNode n) = Inr n"

text \<open>
  The \<open>existing_graph\<close> dict given to the agents; \<open>None\<close> is an absent key, for which
  \<open>existing_graph.get(key, [])\<close> gives the empty list.
\<close>

record 'm ExistingGraph =
  g_nodes :: "'m pyobj list option"
  g_relationships :: "KnowledgeEdge list option"
  g_similar_nodes :: "'m pyobj list option"

definition get_list :: "'a list option \<Rightarrow> 'a list" where
  "get_list v = (case v of None \<Rightarrow> [] | Some xs \<Rightarrow> xs)"

section \<open>IngestionAgent (agents/ingestion.py)\<close>

definition validate_content :: "KnowledgeIngestionState \<Rightarrow> ValidationResult" where
  "validate_content state =
     (let c = content state;
          issues0 = [];
          suggestions0 = [];
          (issues1, suggestions1) =
            (if length (py_strip c) < 10
             then (issues0 @ [''Content too short''],
                   suggestions0 @ [''Provide more detailed content''])
             else (issues0, suggestions0));
          (issues2, suggestions2) =
            (if length (py_split c) < 5
             then (issues1 @ [''Content has too few words''],
                   suggestions1 @ [''Expand on the topic with more information''])
             else (issues1, suggestions1));
          suggestions3 =
            (if py_count c (CHR ''?'') > py_count c (CHR ''.'')
             then suggestions2 @
               [''Content appears to be mostly questions - consider adding explanatory text'']
             else suggestions2);
          conf = 1.0 - (real (length issues2) * 0.2)
      in \<lparr> is_valid = (length issues2 = 0),
           v_confidence = max 0.1 conf,
           issues = issues2,
           suggestions = suggestions3 \<rparr>)"

text \<open>
  The external collaborators of an ingestion run: the text splitter, the embedding model,
  the vector store, the graph store and the clock. Each can raise. The clock is read once
  when the run starts, once when it ends, and twice for every chunk.
\<close>

record 'm NodeProperties =
  np_content :: string
  np_confidence :: real
  np_created_at :: string
  np_metadata :: 'm

record IngestionEnv =
  split_text :: "string \<Rightarrow> exn + string list"
  encode :: "string \<Rightarrow> exn + embedding"
  store_embedding :: "string \<Rightarrow> embedding \<Rightarrow> pydict \<Rightarrow> exn + unit"
  create_knowledge_node :: "string \<Rightarrow> pydict NodeProperties \<Rightarrow> exn + unit"
  create_relationship ::
    "string \<Rightarrow> string \<Rightarrow> string \<Rightarrow> (string \<times> real) list \<Rightarrow> exn + unit"
  now_start :: string
  now_end :: string
  now_chunk :: "nat \<Rightarrow> string \<times> string"

record ProcessResult =
  pr_nodes :: "string list"
  pr_embeddings :: "(string \<times> embedding \<times> pydict KnowledgeNode) list"
  pr_state :: KnowledgeIngestionState

text \<open>The loop \<open>for i, chunk in enumerate(chunks)\<close> of \<open>process_content\<close>.\<close>

fun process_chunks ::
  "IngestionEnv \<Rightarrow> KnowledgeIngestionState \<Rightarrow> nat \<Rightarrow> nat \<Rightarrow> string list \<Rightarrow>
   string list \<times> (string \<times> embedding \<times> pydict KnowledgeNode) list \<Rightarrow>
   exn + string list \<times> (string \<times> embedding \<times> pydict KnowledgeNode) list" where
  "process_chunks env state n_chunks i [] acc = Inr acc"
| "process_chunks env state n_chunks i (chunk # rest) acc =
     (case encode env chunk of
        Inl e \<Rightarrow> Inl e
      | Inr emb \<Rightarrow>
          (let node_id = workflow_id state @ ''_chunk_'' @ str_nat i;
               node = \<lparr> n_id = node_id,
                        n_content = chunk,
                        n_embedding = Some emb,
                        n_metadata =
                          AList.update ''content_length'' (PInt (int (length chunk)))
                            (AList.update ''total_chunks'' (PInt (int n_chunks))
                              (AList.update ''chunk_index'' (PInt (int i))
                                (AList.update ''source''
                                   (case source state of None \<Rightarrow> PNone | Some s \<Rightarrow> PStr s)
                                   (metadata state)))),
                        n_confidence = 0.8,
                        n_created_at = fst (now_chunk env i),
                        n_updated_at = snd (now_chunk env i) \<rparr>
           in process_chunks env state n_chunks (Suc i) rest
                (fst acc @ [node_id], snd acc @ [(node_id, emb, node)])))"

definition process_content :: "IngestionEnv \<Rightarrow> KnowledgeIngestionState \<Rightarrow> exn + ProcessResult" where
  "process_content env state =
     (case split_text env (content state) of
        Inl e \<Rightarrow> Inl e
      | Inr chunks \<Rightarrow>
          (case process_chunks env state (length chunks) 0 chunks ([], []) of
             Inl e \<Rightarrow> Inl e
           | Inr (nodes_created', embeddings) \<Rightarrow>
               (let new_state = state
                      \<lparr> nodes_created := nodes_created',
                        embedding_generated := True,
                        current_step := ''content_processed'' \<rparr>
                in Inr \<lparr> pr_nodes = nodes_created',
                         pr_embeddings = embeddings,
                         pr_state = new_state \<rparr>)))"

section \<open>AlignmentAgent and ContradictionAgent (agents/other\_agents.py)\<close>

definition calculate_similarity :: "'m pyobj \<Rightarrow> 'm pyobj \<Rightarrow> exn + real" where
  "calculate_similarity node1 node2 =
     (case as_node node1 of
        Inl e \<Rightarrow> Inl e
      | Inr n1 \<Rightarrow>
          (case as_node node2 of
             Inl e \<Rightarrow> Inl e
           | Inr n2 \<Rightarrow>
               (let words1 = set (py_split (py_lower (n_content n1)));
                    words2 = set (py_split (py_lower (n_content n2)));
                    intersection = words1 \<inter> words2;
                    union = words1 \<union> words2
                in Inr (if union \<noteq> {} then real (card intersection) / real (card union)
                        else 0.0))))"

text \<open>The inner loop \<open>for similar in similar_nodes\<close> and the outer loop over \<open>nodes\<close>.\<close>

fun align_similar ::
  "'m pyobj \<Rightarrow> 'm pyobj list \<Rightarrow> Alignment list \<times> KnowledgeEdge list \<Rightarrow>
   exn + Alignment list \<times> KnowledgeEdge list" where
  "align_similar node [] acc = Inr acc"
| "align_similar node (similar # rest) acc =
     (case calculate_similarity node similar of
        Inl e \<Rightarrow> Inl e
      | Inr sim \<Rightarrow>
          (if sim > 0.7 then
             (case as_node node of
                Inl e \<Rightarrow> Inl e
              | Inr n \<Rightarrow>
                  (case as_node similar of
                     Inl e \<Rightarrow> Inl e
                   | Inr sn \<Rightarrow>
                       align_similar node rest
                         (fst acc @ [\<lparr> new_node = n_id n, existing_node = n_id sn,
                                       similarity = sim,
                                       relationship_type = ''SIMILAR_TO'' \<rparr>],
                          snd acc @ [\<lparr> from_id = n_id n, to_id = n_id sn,
                                       e_type = ''SIMILAR_TO'',
                                       e_properties = [(''similarity_score'', sim)],
                                       e_confidence = 0.8 \<rparr>])))
           else align_similar node rest acc))"

fun align_nodes ::
  "'m pyobj list \<Rightarrow> 'm ExistingGraph \<Rightarrow> Alignment list \<times> KnowledgeEdge list \<Rightarrow>
   exn + Alignment list \<times> KnowledgeEdge list" where
  "align_nodes [] existing_graph acc = Inr acc"
| "align_nodes (node # rest) existing_graph acc =
     (case align_similar node (get_list (g_similar_nodes existing_graph)) acc of
        Inl e \<Rightarrow> Inl e
      | Inr acc' \<Rightarrow> align_nodes rest existing_graph acc')"

definition analyze_alignment :: "'m pyobj list \<Rightarrow> 'm ExistingGraph \<Rightarrow> exn + AlignmentResult" where
  "analyze_alignment nodes existing_graph =
     (case align_nodes nodes existing_graph ([], []) of
        Inl e \<Rightarrow> Inl e
      | Inr (als, rels) \<Rightarrow>
          Inr \<lparr> alignments = als, new_relationships = rels,
                integration_confidence = 0.85 \<rparr>)"

text \<open>
  The dict that \<open>_check_contradiction\<close> returns, and the entry that the caller records.
  (The return annotation of \<open>_check_contradiction\<close> names \<open>Optional\<close>, which the
  module does not import; the functions are modelled as they run once the module is
  loaded.)
\<close>

record Contradiction =
  c_type :: string
  c_description :: string
  c_severity :: string

record ContradictionEntry =
  node1 :: string
  node2 :: string
  ce_type :: string
  ce_description :: string
  ce_severity :: string

definition contradiction_patterns :: "(string \<times> string) list" where
  "contradiction_patterns =
     [(''is'', ''is not''), (''true'', ''false''), (''yes'', ''no''),
      (''correct'', ''incorrect'')]"

text \<open>The loop \<open>for pos, neg in contradiction_patterns\<close>, which returns at the first match.\<close>

fun scan_patterns :: "(string \<times> string) list \<Rightarrow> string \<Rightarrow> string \<Rightarrow> Contradiction option" where
  "scan_patterns [] content1 content2 = None"
| "scan_patterns ((pos, neg) # rest) content1 content2 =
     (if py_in pos content1 \<and> py_in neg content2
      then Some \<lparr> c_type = ''direct_contradiction'',
                  c_description = ''Direct contradiction detected: '' @ [CHR 0x27] @ pos @
                     [CHR 0x27] @ '' vs '' @ [CHR 0x27] @ neg @ [CHR 0x27],
                  c_severity = ''high'' \<rparr>
      else scan_patterns rest content1 content2)"

definition check_contradiction :: "'m pyobj \<Rightarrow> 'm pyobj \<Rightarrow> exn + Contradiction option" where
  "check_contradiction n1 n2 =
     (case as_node n1 of
        Inl e \<Rightarrow> Inl e
      | Inr d1 \<Rightarrow>
          (case as_node n2 of
             Inl e \<Rightarrow> Inl e
           | Inr d2 \<Rightarrow>
               Inr (scan_patterns contradiction_patterns
                      (py_lower (n_content d1)) (py_lower (n_content d2)))))"

text \<open>The inner loop \<open>for existing in existing_nodes\<close> and the outer loop over \<open>nodes\<close>.\<close>

fun scan_existing ::
  "'m pyobj \<Rightarrow> 'm pyobj list \<Rightarrow> ContradictionEntry list \<Rightarrow> exn + ContradictionEntry list" where
  "scan_existing node [] contradictions = Inr contradictions"
| "scan_existing node (existing # rest) contradictions =
     (case check_contradiction node existing of
        Inl e \<Rightarrow> Inl e
      | Inr None \<Rightarrow> scan_existing node rest contradictions
      | Inr (Some c) \<Rightarrow>
          (case as_node node of
             Inl e \<Rightarrow> Inl e
           | Inr n \<Rightarrow>
               (case as_node existing of
                  Inl e \<Rightarrow> Inl e
                | Inr ex \<Rightarrow>
                    scan_existing node rest
                      (contradictions @
                         [\<lparr> node1 = n_id n, node2 = n_id ex, ce_type = c_type c,
                            ce_description = c_description c,
                            ce_severity = c_severity c \<rparr>]))))"

fun scan_nodes ::
  "'m pyobj list \<Rightarrow> 'm ExistingGraph \<Rightarrow> ContradictionEntry list \<Rightarrow>
   exn + ContradictionEntry list" where
  "scan_nodes [] existing_graph contradictions = Inr contradictions"
| "scan_nodes (node # rest) existing_graph contradictions =
     (case scan_existing node (get_list (g_nodes existing_graph)) contradictions of
        Inl e \<Rightarrow> Inl e
      | Inr contradictions' \<Rightarrow> scan_nodes rest existing_graph contradictions')"

fun generate_resolution_suggestions :: "ContradictionEntry list \<Rightarrow> string list" where
  "generate_resolution_suggestions [] = []"
| "generate_resolution_suggestions (c # cs) =
     [''Review nodes '' @ node1 c @ '' and '' @ node2 c @ '' for factual accuracy'',
      ''Consider updating confidence scores based on source reliability'',
      ''May require human expert review for resolution'']
     @ generate_resolution_suggestions cs"

text \<open>
  The source builds the table \<open>severity_levels\<close> and never reads it: the aggregate is
  \<open>max\<close> over the severity strings themselves.
\<close>

definition detect_contradictions ::
  "'m pyobj list \<Rightarrow> 'm ExistingGraph \<Rightarrow> exn + ContradictionAnalysis" where
  "detect_contradictions nodes existing_graph =
     (case scan_nodes nodes existing_graph [] of
        Inl e \<Rightarrow> Inl e
      | Inr contradictions \<Rightarrow>
          (let max_severity = py_max_str (map ce_severity contradictions) ''low''
           in Inr \<lparr> has_contradiction = (length contradictions > 0),
                    conflicting_nodes = map node1 contradictions,
                    severity = max_severity,
                    resolution_suggestions =
                      generate_resolution_suggestions contradictions \<rparr>))"

section \<open>Workflow graph engine\<close>

text \<open>
  The graph that \<open>_build_workflow\<close> describes with \<open>add_node\<close>, \<open>set_entry_point\<close>,
  \<open>add_edge\<close> and \<open>add_conditional_edges\<close>: named steps, an entry step and, for every
  step, either one successor or a branch predicate with a table from branch key to
  successor. \<open>END\<close> is the terminal marker.
\<close>

datatype 's edge = Edge string | ConditionalEdges "'s \<Rightarrow> string" "(string \<times> string) list"

record 's StateGraph =
  nodes :: "(string \<times> ('s \<Rightarrow> exn + 's)) list"
  entry_point :: string
  edges :: "(string \<times> 's edge) list"

definition END :: string where
  "END = ''__end__''"

text \<open>
  What an execution did: the names of the steps it invoked, in order; the states that
  the steps returned, in order; and the exception or the final state.
\<close>

record 's Execution =
  steps_run :: "string list"
  states_out :: "'s list"
  outcome :: "exn + 's"

text \<open>
  Modelled from the spec: the choice of the successor of a step, which the langgraph
  library makes and which is not part of the repository. By section 4.1 of the
  specification, an unconditional edge is followed, and for a conditional edge the
  predicate is evaluated against the state that the step returned and the successor is
  looked up in the table.
\<close>

fun successor :: "'s edge \<Rightarrow> 's \<Rightarrow> string option" where
  "successor (Edge n) s = Some n"
| "successor (ConditionalEdges predicate table) s = map_of table (predicate s)"

text \<open>
  Modelled from the spec: the execution of a compiled graph (\<open>compile\<close> and \<open>ainvoke\<close>
  of the langgraph library, which is not part of the repository). By section 4.1 of the
  specification, execution starts at the entry step; the current step is invoked with
  the current state; the state that it returns is exactly the input of the next step;
  when the successor is the terminal marker, execution ends and that state is the
  result; a step that raises ends the execution with its exception. The fuel counts the
  invocations that are left; an execution that runs out of fuel, or that meets a name
  without step or without successor, gives no result (\<open>None\<close>).
\<close>

fun exec :: "'s StateGraph \<Rightarrow> nat \<Rightarrow> string \<Rightarrow> 's \<Rightarrow> 's Execution option" where
  "exec g 0 name s = None"
| "exec g (Suc fuel) name s =
     (case map_of (nodes g) name of
        None \<Rightarrow> None
      | Some step \<Rightarrow>
          (case step s of
             Inl e \<Rightarrow> Some \<lparr> steps_run = [name], states_out = [], outcome = Inl e \<rparr>
           | Inr s' \<Rightarrow>
               (case map_of (edges g) name of
                  None \<Rightarrow> None
                | Some ed \<Rightarrow>
                    (case successor ed s' of
                       None \<Rightarrow> None
                     | Some next \<Rightarrow>
                         if next = END
                         then Some \<lparr> steps_run = [name], states_out = [s'],
                                     outcome = Inr s' \<rparr>
                         else (case exec g fuel next s' of
                                 None \<Rightarrow> None
                               | Some x \<Rightarrow>
                                   Some \<lparr> steps_run = name # steps_run x,
                                          states_out = s' # states_out x,
                                          outcome = outcome x \<rparr>)))))"

text \<open>
  Modelled from the spec: \<open>ainvoke\<close> of the langgraph library. By section 4.1 of the
  specification no step is invoked twice in a run, so the number of steps of the graph
  bounds the number of invocations and is the fuel.
\<close>

definition ainvoke :: "'s StateGraph \<Rightarrow> 's \<Rightarrow> 's Execution option" where
  "ainvoke g s = exec g (length (nodes g)) (entry_point g) s"

section \<open>KnowledgeWorkflow (workflows/knowledge\_workflow.py)\<close>

text \<open>
  The steps are the methods of the class without the leading underscore; a step whose
  name is also the name of an agent function has the prefix \<open>wf_\<close>. A step copies
  the state and updates the copy, so it returns a new state.
\<close>

definition wf_validate_content :: "KnowledgeIngestionState \<Rightarrow> exn + KnowledgeIngestionState" where
  "wf_validate_content state =
     (let validation_result' = validate_content state
      in Inr (state \<lparr> current_step := ''validation_complete'',
                      validation_result := Some validation_result' \<rparr>))"

definition should_process :: "KnowledgeIngestionState \<Rightarrow> string" where
  "should_process state =
     (case validation_result state of
        None \<Rightarrow> ''reject''
      | Some validation \<Rightarrow> if is_valid validation then ''process'' else ''reject'')"

definition wf_process_content ::
  "IngestionEnv \<Rightarrow> KnowledgeIngestionState \<Rightarrow> exn + KnowledgeIngestionState" where
  "wf_process_content env state =
     (case process_content env state of
        Inl e \<Rightarrow> Inl e
      | Inr result \<Rightarrow>
          Inr (state \<lparr> nodes_created := pr_nodes result,
                       embeddings_data := Some (pr_embeddings result),
                       current_step := ''content_processed'' \<rparr>))"

definition wf_check_alignment :: "KnowledgeIngestionState \<Rightarrow> exn + KnowledgeIngestionState" where
  "wf_check_alignment state =
     (let nodes' = map PyStr (nodes_created state);
          existing_graph = \<lparr> g_nodes = Some ([] :: pydict pyobj list),
                             g_relationships = Some [], g_similar_nodes = None \<rparr>
      in case analyze_alignment nodes' existing_graph of
           Inl e \<Rightarrow> Inl e
         | Inr alignment_result' \<Rightarrow>
             Inr (state \<lparr> alignment_result := Some alignment_result',
                          current_step := ''alignment_checked'' \<rparr>))"

definition wf_detect_contradictions ::
  "KnowledgeIngestionState \<Rightarrow> exn + KnowledgeIngestionState" where
  "wf_detect_contradictions state =
     (let nodes' = map PyStr (nodes_created state);
          existing_graph = \<lparr> g_nodes = Some ([] :: pydict pyobj list),
                             g_relationships = Some [], g_similar_nodes = None \<rparr>
      in case detect_contradictions nodes' existing_graph of
           Inl e \<Rightarrow> Inl e
         | Inr contradiction_result' \<Rightarrow>
             Inr (state \<lparr> contradiction_result := Some contradiction_result',
                          current_step := ''contradictions_checked'' \<rparr>))"

definition should_store :: "KnowledgeIngestionState \<Rightarrow> string" where
  "should_store state =
     (case contradiction_result state of
        None \<Rightarrow> ''store''
      | Some contradiction \<Rightarrow>
          if \<not> has_contradiction contradiction then ''store'' else ''review'')"

fun store_all ::
  "IngestionEnv \<Rightarrow> (string \<times> embedding \<times> pydict KnowledgeNode) list \<Rightarrow> exn + unit" where
  "store_all env [] = Inr ()"
| "store_all env ((node_id, emb, node_data) # rest) =
     (case store_embedding env node_id emb (n_metadata node_data) of
        Inl e \<Rightarrow> Inl e
      | Inr u \<Rightarrow> store_all env rest)"

definition wf_store_embeddings ::
  "IngestionEnv \<Rightarrow> KnowledgeIngestionState \<Rightarrow> exn + KnowledgeIngestionState" where
  "wf_store_embeddings env state =
     (case store_all env (get_list (embeddings_data state)) of
        Inl e \<Rightarrow> Inl e
      | Inr u \<Rightarrow>
          Inr (state \<lparr> embeddings_stored := Some True,
                       current_step := ''embeddings_stored'' \<rparr>))"

text \<open>
  The loop \<open>for node_data in nodes\<close> of \<open>_update_graph\<close>: \<open>nodes\<close> is the state's
  \<open>nodes_created\<close>, whose elements are strings, and the arguments of the call
  (\<open>node_data["id"]\<close> first) are evaluated before the client is called.
\<close>

fun create_nodes :: "IngestionEnv \<Rightarrow> pydict pyobj list \<Rightarrow> exn + unit" where
  "create_nodes env [] = Inr ()"
| "create_nodes env (node_data # rest) =
     (case as_node node_data of
        Inl e \<Rightarrow> Inl e
      | Inr n \<Rightarrow>
          (case create_knowledge_node env (n_id n)
                  \<lparr> np_content = n_content n, np_confidence = n_confidence n,
                    np_created_at = n_created_at n, np_metadata = n_metadata n \<rparr> of
             Inl e \<Rightarrow> Inl e
           | Inr u \<Rightarrow> create_nodes env rest))"

fun create_relationships :: "IngestionEnv \<Rightarrow> KnowledgeEdge list \<Rightarrow> exn + unit" where
  "create_relationships env [] = Inr ()"
| "create_relationships env (rel # rest) =
     (case create_relationship env (from_id rel) (to_id rel) (e_type rel) (e_properties rel) of
        Inl e \<Rightarrow> Inl e
      | Inr u \<Rightarrow> create_relationships env rest)"

definition wf_update_graph ::
  "IngestionEnv \<Rightarrow> KnowledgeIngestionState \<Rightarrow> exn + KnowledgeIngestionState" where
  "wf_update_graph env state =
     (let nodes' = map PyStr (nodes_created state);
          relationships =
            (case alignment_result state of None \<Rightarrow> [] | Some a \<Rightarrow> new_relationships a)
      in case create_nodes env nodes' of
           Inl e \<Rightarrow> Inl e
         | Inr u \<Rightarrow>
             (case create_relationships env relationships of
                Inl e \<Rightarrow> Inl e
              | Inr u' \<Rightarrow>
                  Inr (state \<lparr> graph_updated := True,
                               edges_created :=
                                 map (\<lambda>r. from_id r @ ''->'' @ to_id r) relationships,
                               current_step := ''graph_updated'' \<rparr>)))"

definition finalize_ingestion ::
  "IngestionEnv \<Rightarrow> KnowledgeIngestionState \<Rightarrow> exn + KnowledgeIngestionState" where
  "finalize_ingestion env state =
     Inr (state \<lparr> status := ''completed'',
                  end_time := Some (now_end env),
                  current_step := ''completed'' \<rparr>)"

definition knowledge_build_workflow :: "IngestionEnv \<Rightarrow> KnowledgeIngestionState StateGraph" where
  "knowledge_build_workflow env =
     \<lparr> nodes =
         [(''validate_content'', wf_validate_content),
          (''process_content'', wf_process_content env),
          (''check_alignment'', wf_check_alignment),
          (''detect_contradictions'', wf_detect_contradictions),
          (''store_embeddings'', wf_store_embeddings env),
          (''update_graph'', wf_update_graph env),
          (''finalize_ingestion'', finalize_ingestion env)],
       entry_point = ''validate_content'',
       edges =
         [(''validate_content'',
             ConditionalEdges should_process
               [(''process'', ''process_content''), (''reject'', END)]),
          (''process_content'', Edge ''check_alignment''),
          (''check_alignment'', Edge ''detect_contradictions''),
          (''detect_contradictions'',
             ConditionalEdges should_store
               [(''store'', ''store_embeddings''), (''review'', END)]),
          (''store_embeddings'', Edge ''update_graph''),
          (''update_graph'', Edge ''finalize_ingestion''),
          (''finalize_ingestion'', Edge END)] \<rparr>"

definition knowledge_initial_state ::
  "IngestionEnv \<Rightarrow> string \<Rightarrow> string \<Rightarrow> pydict \<Rightarrow> string option \<Rightarrow> KnowledgeIngestionState" where
  "knowledge_initial_state env wid c md src =
     \<lparr> workflow_id = wid,
       status = ''running'',
       current_step = ''initialized'',
       start_time = now_start env,
       end_time = None,
       error = None,
       content = c,
       source = src,
       metadata = md,
       nodes_created = [],
       edges_created = [],
       embedding_generated = False,
       graph_updated = False,
       validation_result = None,
       embeddings_data = None,
       alignment_result = None,
       contradiction_result = None,
       embeddings_stored = None \<rparr>"

text \<open>The \<open>except Exception\<close> handler of \<open>run\<close>: it writes into \<open>initial_state\<close>.\<close>

definition knowledge_failed ::
  "IngestionEnv \<Rightarrow> KnowledgeIngestionState \<Rightarrow> exn \<Rightarrow> KnowledgeIngestionState" where
  "knowledge_failed env initial_state e =
     initial_state \<lparr> status := ''failed'',
                     error := Some (exn_str e),
                     end_time := Some (now_end env) \<rparr>"

text \<open>The body of the \<open>try\<close> block of \<open>run\<close>.\<close>

definition knowledge_execution ::
  "IngestionEnv \<Rightarrow> string \<Rightarrow> string \<Rightarrow> pydict \<Rightarrow> string option \<Rightarrow>
   KnowledgeIngestionState Execution option" where
  "knowledge_execution env wid c md src =
     ainvoke (knowledge_build_workflow env) (knowledge_initial_state env wid c md src)"

definition knowledge_run ::
  "IngestionEnv \<Rightarrow> string \<Rightarrow> string \<Rightarrow> pydict \<Rightarrow> string option \<Rightarrow>
   KnowledgeIngestionState option" where
  "knowledge_run env wid c md src =
     (case knowledge_execution env wid c md src of
        None \<Rightarrow> None
      | Some x \<Rightarrow>
          (case outcome x of
             Inr result \<Rightarrow> Some result
           | Inl e \<Rightarrow>
               Some (knowledge_failed env (knowledge_initial_state env wid c md src) e)))"

text \<open>
  Every state of a run, in the order of production: the initial state, the output of each
  step that returned and, when a step raised, the state that the handler returns.
\<close>

definition knowledge_states ::
  "IngestionEnv \<Rightarrow> string \<Rightarrow> string \<Rightarrow> pydict \<Rightarrow> string option \<Rightarrow>
   KnowledgeIngestionState list" where
  "knowledge_states env wid c md src =
     (case knowledge_execution env wid c md src of
        None \<Rightarrow> [knowledge_initial_state env wid c md src]
      | Some x \<Rightarrow>
          knowledge_initial_state env wid c md src # states_out x @
          (case outcome x of
             Inr result \<Rightarrow> []
           | Inl e \<Rightarrow> [knowledge_failed env (knowledge_initial_state env wid c md src) e]))"

section \<open>ResearchAgent (agents/other\_agents.py)\<close>

record Gap =
  gap_type :: string
  gap_description :: string
  gap_severity :: string

record GapAnalysis =
  gaps :: "Gap list"
  coverage_score :: real
  research_suggestions :: "string list"

text \<open>The loop \<open>for node in retrieved_nodes\<close> that collects the covered terms.\<close>

fun cover_nodes :: "'m KnowledgeNode list \<Rightarrow> string set \<Rightarrow> string set \<Rightarrow> string set" where
  "cover_nodes [] query_terms covered_terms = covered_terms"
| "cover_nodes (node # rest) query_terms covered_terms =
     (let node_terms = set (py_split (py_lower (n_content node)))
      in cover_nodes rest query_terms (covered_terms \<union> (node_terms \<inter> query_terms)))"

definition identify_conceptual_gaps :: "string \<Rightarrow> 'm KnowledgeNode list \<Rightarrow> Gap list" where
  "identify_conceptual_gaps query nodes' =
     (let shallow_responses =
            map n_id (filter (\<lambda>node. length (py_split (n_content node)) < 50) nodes')
      in if shallow_responses \<noteq> []
         then [\<lparr> gap_type = ''depth_gap'',
                  gap_description =
                    ''Some concepts lack detailed explanations (nodes: '' @
                    py_join '', '' shallow_responses @ '')'',
                  gap_severity = ''low'' \<rparr>]
         else [])"

fun generate_research_suggestions :: "Gap list \<Rightarrow> string list" where
  "generate_research_suggestions [] = []"
| "generate_research_suggestions (gap # rest) =
     (if gap_type gap = ''terminology_gap''
      then [''Research the missing terms: '' @ gap_description gap]
      else if gap_type gap = ''depth_gap''
      then [''Expand explanations for identified shallow concepts'']
      else if gap_type gap = ''recency_gap''
      then [''Update outdated information'']
      else [])
     @ generate_research_suggestions rest"

text \<open>
  \<open>iter\<close> is the order in which the interpreter iterates over a set of strings; it only
  fixes the order of the terms in the description of the terminology gap.
\<close>

definition identify_gaps ::
  "(string set \<Rightarrow> string list) \<Rightarrow> string \<Rightarrow> 'm KnowledgeNode list \<Rightarrow> GapAnalysis" where
  "identify_gaps iter query retrieved_nodes' =
     (let query_terms = set (py_split (py_lower query));
          covered_terms = cover_nodes retrieved_nodes' query_terms {};
          missing_terms = query_terms - covered_terms;
          gaps1 =
            (if missing_terms \<noteq> {}
             then [\<lparr> gap_type = ''terminology_gap'',
                      gap_description =
                        ''Missing information about: '' @ py_join '', '' (iter missing_terms),
                      gap_severity = ''medium'' \<rparr>]
             else []);
          coverage = (if query_terms \<noteq> {}
                      then real (card covered_terms) / real (card query_terms)
                      else 1.0);
          gaps2 = gaps1 @ identify_conceptual_gaps query retrieved_nodes'
      in \<lparr> gaps = gaps2,
           coverage_score = coverage,
           research_suggestions = generate_research_suggestions gaps2 \<rparr>)"

section \<open>ReasoningWorkflow (workflows/reasoning\_workflow.py)\<close>

text \<open>
  What the two stores return. A payload is a dict of which the workflow reads the keys
  \<open>content\<close>, \<open>created_at\<close> and \<open>updated_at\<close>; a graph node is a dict of which it
  reads \<open>id\<close>, \<open>content\<close>, \<open>metadata\<close>, \<open>created_at\<close> and \<open>updated_at\<close>. \<open>None\<close> is
  an absent key; the values are typed as \<open>KnowledgeNode\<close> declares them.
\<close>

record Payload =
  p_content :: "string option"
  p_created_at :: "string option"
  p_updated_at :: "string option"
  p_other :: pydict

record VectorResult =
  vr_id :: string
  vr_score :: real
  vr_metadata :: Payload

record GraphNodeData =
  gn_id :: "string option"
  gn_content :: "string option"
  gn_metadata :: "Payload option"
  gn_created_at :: "string option"
  gn_updated_at :: "string option"

record GraphResult =
  gr_node :: GraphNodeData
  gr_score :: real

record ReasoningWorkflowState = WorkflowState +
  query :: string
  query_context :: pydict
  retrieved_nodes :: "Payload KnowledgeNode list"
  reasoning_path :: "string list"
  answer :: "string option"
  confidence :: real
  contradictions_found :: "string list"
  query_analysis :: "string option"
  vector_results :: "VectorResult list option"
  graph_results :: "GraphResult list option"
  contradiction_analysis :: "ContradictionAnalysis option"
  reasoning_text :: "string option"
  gap_analysis :: "GapAnalysis option"

text \<open>
  The prompts are given to the language model by their parts: the text around them is
  fixed, and the model's reply is opaque.
\<close>

datatype Prompt =
    AnalysisPrompt string
  | ReasoningPrompt string string
  | AnswerPrompt string string "Gap list" nat

record ReasoningEnv =
  llm :: "Prompt \<Rightarrow> exn + string"
  embed_query :: "string \<Rightarrow> exn + embedding"
  search_similar :: "embedding \<Rightarrow> nat \<Rightarrow> VectorResult list"
  search_nodes :: "string \<Rightarrow> nat \<Rightarrow> exn + GraphResult list"
  set_iter :: "string set \<Rightarrow> string list"
  r_now_start :: string
  r_now_end :: string

definition get_str :: "string option \<Rightarrow> string" where
  "get_str v = (case v of None \<Rightarrow> [] | Some s \<Rightarrow> s)"

definition empty_payload :: Payload where
  "empty_payload = \<lparr> p_content = None, p_created_at = None, p_updated_at = None,
                      p_other = [] \<rparr>"

definition analyze_query ::
  "ReasoningEnv \<Rightarrow> ReasoningWorkflowState \<Rightarrow> exn + ReasoningWorkflowState" where
  "analyze_query env state =
     (case llm env (AnalysisPrompt (query state)) of
        Inl e \<Rightarrow> Inl e
      | Inr analysis_text \<Rightarrow>
          Inr (state \<lparr> query_analysis := Some analysis_text,
                       current_step := ''query_analyzed'' \<rparr>))"

text \<open>
  The dict \<open>combined\<close> is an association list in insertion order; \<open>list(combined.values())\<close>
  is the list of its values in that order.
\<close>

definition vector_node :: "VectorResult \<Rightarrow> Payload KnowledgeNode" where
  "vector_node result =
     \<lparr> n_id = vr_id result,
       n_content = get_str (p_content (vr_metadata result)),
       n_embedding = None,
       n_metadata = vr_metadata result,
       n_confidence = vr_score result,
       n_created_at = get_str (p_created_at (vr_metadata result)),
       n_updated_at = get_str (p_updated_at (vr_metadata result)) \<rparr>"

definition graph_node :: "string \<Rightarrow> GraphResult \<Rightarrow> Payload KnowledgeNode" where
  "graph_node node_id result =
     \<lparr> n_id = node_id,
       n_content = get_str (gn_content (gr_node result)),
       n_embedding = None,
       n_metadata = (case gn_metadata (gr_node result) of
                       None \<Rightarrow> empty_payload | Some m \<Rightarrow> m),
       n_confidence = gr_score result,
       n_created_at = get_str (gn_created_at (gr_node result)),
       n_updated_at = get_str (gn_updated_at (gr_node result)) \<rparr>"

fun combine_vector ::
  "VectorResult list \<Rightarrow> (string \<times> Payload KnowledgeNode) list \<Rightarrow>
   (string \<times> Payload KnowledgeNode) list" where
  "combine_vector [] combined = combined"
| "combine_vector (result # rest) combined =
     (let node_id = vr_id result
      in combine_vector rest
           (if map_of combined node_id = None
            then combined @ [(node_id, vector_node result)]
            else combined))"

text \<open>
  \<open>if node_id and node_id not in combined\<close>: an absent id (\<open>None\<close>) and the empty
  string are both false.
\<close>

fun combine_graph ::
  "GraphResult list \<Rightarrow> (string \<times> Payload KnowledgeNode) list \<Rightarrow>
   (string \<times> Payload KnowledgeNode) list" where
  "combine_graph [] combined = combined"
| "combine_graph (result # rest) combined =
     combine_graph rest
       (case gn_id (gr_node result) of
          None \<Rightarrow> combined
        | Some node_id \<Rightarrow>
            if node_id \<noteq> [] \<and> map_of combined node_id = None
            then combined @ [(node_id, graph_node node_id result)]
            else combined)"

text \<open>The dict \<open>combined\<close> after both loops, and the list that the function returns.\<close>

definition combined_dict ::
  "VectorResult list \<Rightarrow> GraphResult list \<Rightarrow> (string \<times> Payload KnowledgeNode) list" where
  "combined_dict vector_results' graph_results' =
     combine_graph graph_results' (combine_vector vector_results' [])"

definition combine_search_results ::
  "VectorResult list \<Rightarrow> GraphResult list \<Rightarrow> Payload KnowledgeNode list" where
  "combine_search_results vector_results' graph_results' =
     map snd (combined_dict vector_results' graph_results')"

definition retrieve_knowledge ::
  "ReasoningEnv \<Rightarrow> ReasoningWorkflowState \<Rightarrow> exn + ReasoningWorkflowState" where
  "retrieve_knowledge env state =
     (case embed_query env (query state) of
        Inl e \<Rightarrow> Inl e
      | Inr query_embedding \<Rightarrow>
          (let vector_results' = search_similar env query_embedding 10
           in case search_nodes env (query state) 5 of
                Inl e \<Rightarrow> Inl e
              | Inr graph_results' \<Rightarrow>
                  Inr (state \<lparr> retrieved_nodes :=
                                 combine_search_results vector_results' graph_results',
                               vector_results := Some vector_results',
                               graph_results := Some graph_results',
                               current_step := ''knowledge_retrieved'' \<rparr>)))"

definition check_contradictions ::
  "ReasoningWorkflowState \<Rightarrow> exn + ReasoningWorkflowState" where
  "check_contradictions state =
     (let retrieved_nodes' = map PyNode (retrieved_nodes state)
      in case detect_contradictions retrieved_nodes'
                \<lparr> g_nodes = Some retrieved_nodes', g_relationships = None,
                  g_similar_nodes = None \<rparr> of
           Inl e \<Rightarrow> Inl e
         | Inr contradiction_result' \<Rightarrow>
             Inr (state \<lparr> contradictions_found := conflicting_nodes contradiction_result',
                          contradiction_analysis := Some contradiction_result',
                          current_step := ''contradictions_checked'' \<rparr>))"

definition should_continue_reasoning :: "ReasoningWorkflowState \<Rightarrow> string" where
  "should_continue_reasoning state =
     (if length (contradictions_found state) > 2 then ''stop'' else ''continue'')"

definition format_nodes_for_reasoning :: "Payload KnowledgeNode list \<Rightarrow> string" where
  "format_nodes_for_reasoning nodes' =
     py_join [CHR 0x0A]
       (map (\<lambda>node. ''- '' @ take 200 (n_content node) @ ''...'') (take 5 nodes'))"

definition generate_reasoning ::
  "ReasoningEnv \<Rightarrow> ReasoningWorkflowState \<Rightarrow> exn + ReasoningWorkflowState" where
  "generate_reasoning env state =
     (case llm env (ReasoningPrompt (query state)
                      (format_nodes_for_reasoning (retrieved_nodes state))) of
        Inl e \<Rightarrow> Inl e
      | Inr reasoning_text' \<Rightarrow>
          Inr (state \<lparr> reasoning_text := Some reasoning_text',
                       reasoning_path := map n_id (take 3 (retrieved_nodes state)),
                       current_step := ''reasoning_generated'' \<rparr>))"

definition wf_identify_gaps ::
  "ReasoningEnv \<Rightarrow> ReasoningWorkflowState \<Rightarrow> exn + ReasoningWorkflowState" where
  "wf_identify_gaps env state =
     (let gap_analysis' = identify_gaps (set_iter env) (query state) (retrieved_nodes state)
      in Inr (state \<lparr> gap_analysis := Some gap_analysis',
                      current_step := ''gaps_identified'' \<rparr>))"

definition formulate_answer ::
  "ReasoningEnv \<Rightarrow> ReasoningWorkflowState \<Rightarrow> exn + ReasoningWorkflowState" where
  "formulate_answer env state =
     (case llm env (AnswerPrompt (query state) (get_str (reasoning_text state))
                      (case gap_analysis state of None \<Rightarrow> [] | Some g \<Rightarrow> gaps g)
                      (length (contradictions_found state))) of
        Inl e \<Rightarrow> Inl e
      | Inr answer_text \<Rightarrow>
          (let confidence' =
                 (if py_in ''low confidence'' (py_lower answer_text) then 0.5
                  else if py_in ''high confidence'' (py_lower answer_text) then 0.9
                  else 0.8)
           in Inr (state \<lparr> answer := Some answer_text,
                           confidence := confidence',
                           current_step := ''answer_formulated'' \<rparr>)))"

definition finalize_reasoning ::
  "ReasoningEnv \<Rightarrow> ReasoningWorkflowState \<Rightarrow> exn + ReasoningWorkflowState" where
  "finalize_reasoning env state =
     Inr (state \<lparr> status := ''completed'',
                  end_time := Some (r_now_end env),
                  current_step := ''completed'' \<rparr>)"

definition reasoning_build_workflow :: "ReasoningEnv \<Rightarrow> ReasoningWorkflowState StateGraph" where
  "reasoning_build_workflow env =
     \<lparr> nodes =
         [(''analyze_query'', analyze_query env),
          (''retrieve_knowledge'', retrieve_knowledge env),
          (''check_contradictions'', check_contradictions),
          (''generate_reasoning'', generate_reasoning env),
          (''identify_gaps'', wf_identify_gaps env),
          (''formulate_answer'', formulate_answer env),
          (''finalize_reasoning'', finalize_reasoning env)],
       entry_point = ''analyze_query'',
       edges =
         [(''analyze_query'', Edge ''retrieve_knowledge''),
          (''retrieve_knowledge'', Edge ''check_contradictions''),
          (''check_contradictions'',
             ConditionalEdges should_continue_reasoning
               [(''continue'', ''generate_reasoning''), (''stop'', ''finalize_reasoning'')]),
          (''generate_reasoning'', Edge ''identify_gaps''),
          (''identify_gaps'', Edge ''formulate_answer''),
          (''formulate_answer'', Edge ''finalize_reasoning''),
          (''finalize_reasoning'', Edge END)] \<rparr>"

definition reasoning_initial_state ::
  "ReasoningEnv \<Rightarrow> string \<Rightarrow> string \<Rightarrow> pydict \<Rightarrow> ReasoningWorkflowState" where
  "reasoning_initial_state env wid q ctx =
     \<lparr> workflow_id = wid,
       status = ''running'',
       current_step = ''initialized'',
       start_time = r_now_start env,
       end_time = None,
       error = None,
       query = q,
       query_context = ctx,
       retrieved_nodes = [],
       reasoning_path = [],
       answer = None,
       confidence = 0.0,
       contradictions_found = [],
       query_analysis = None,
       vector_results = None,
       graph_results = None,
       contradiction_analysis = None,
       reasoning_text = None,
       gap_analysis = None \<rparr>"

definition reasoning_failed ::
  "ReasoningEnv \<Rightarrow> ReasoningWorkflowState \<Rightarrow> exn \<Rightarrow> ReasoningWorkflowState" where
  "reasoning_failed env initial_state e =
     initial_state \<lparr> status := ''failed'',
                     error := Some (exn_str e),
                     end_time := Some (r_now_end env) \<rparr>"

definition reasoning_execution ::
  "ReasoningEnv \<Rightarrow> string \<Rightarrow> string \<Rightarrow> pydict \<Rightarrow> ReasoningWorkflowState Execution option" where
  "reasoning_execution env wid q ctx =
     ainvoke (reasoning_build_workflow env) (reasoning_initial_state env wid q ctx)"

definition reasoning_run ::
  "ReasoningEnv \<Rightarrow> string \<Rightarrow> string \<Rightarrow> pydict \<Rightarrow> ReasoningWorkflowState option" where
  "reasoning_run env wid q ctx =
     (case reasoning_execution env wid q ctx of
        None \<Rightarrow> None
      | Some x \<Rightarrow>
          (case outcome x of
             Inr result \<Rightarrow> Some result
           | Inl e \<Rightarrow>
               Some (reasoning_failed env (reasoning_initial_state env wid q ctx) e)))"

definition reasoning_states ::
  "ReasoningEnv \<Rightarrow> string \<Rightarrow> string \<Rightarrow> pydict \<Rightarrow> ReasoningWorkflowState list" where
  "reasoning_states env wid q ctx =
     (case reasoning_execution env wid q ctx of
        None \<Rightarrow> [reasoning_initial_state env wid q ctx]
      | Some x \<Rightarrow>
          reasoning_initial_state env wid q ctx # states_out x @
          (case outcome x of
             Inr result \<Rightarrow> []
           | Inl e \<Rightarrow> [reasoning_failed env (reasoning_initial_state env wid q ctx) e]))"

section \<open>Notions of the specification\<close>

text \<open>
  The specification's condition for a contradiction between two contents: for one of the
  four fixed pairs, the positive phrase is in the lower-cased first content and the
  negative phrase is in the lower-cased second content.
\<close>

definition spec_contradicts :: "string \<Rightarrow> string \<Rightarrow> bool" where
  "spec_contradicts content1 content2 =
     ((py_in ''is'' (py_lower content1) \<and> py_in ''is not'' (py_lower content2))
      \<or> (py_in ''true'' (py_lower content1) \<and> py_in ''false'' (py_lower content2))
      \<or> (py_in ''yes'' (py_lower content1) \<and> py_in ''no'' (py_lower content2))
      \<or> (py_in ''correct'' (py_lower content1) \<and> py_in ''incorrect'' (py_lower content2)))"

text \<open>
  The specification's aggregate severity: the greatest of the recorded severities under
  low < medium < high, and low when nothing is recorded.
\<close>

definition severity_rank :: "string \<Rightarrow> nat" where
  "severity_rank s =
     (if s = ''low'' then 1 else if s = ''medium'' then 2 else if s = ''high'' then 3 else 0)"

definition spec_max_severity :: "string list \<Rightarrow> string" where
  "spec_max_severity xs =
     fold (\<lambda>x m. if severity_rank m < severity_rank x then x else m) xs ''low''"

text \<open>
  The last-known state of an execution: the state that the last step that returned has
  produced, and the initial state when no step returned.
\<close>

definition last_known :: "'s \<Rightarrow> 's Execution \<Rightarrow> 's" where
  "last_known initial_state x = last (initial_state # states_out x)"

text \<open>
  The specification's invariant of the state envelope: \<open>end_time\<close> is set iff the
  status is not running; and the transitions of the status that it allows between one
  state of a run and the next: none, running to completed, running to failed.
\<close>

definition end_time_iff_not_running :: "'a WorkflowState_scheme \<Rightarrow> bool" where
  "end_time_iff_not_running s = ((end_time s \<noteq> None) = (status s \<noteq> ''running''))"

definition status_transition ::
  "'a WorkflowState_scheme \<Rightarrow> 'a WorkflowState_scheme \<Rightarrow> bool" where
  "status_transition s s' =
     (status s' = status s \<or>
      (status s = ''running'' \<and> (status s' = ''completed'' \<or> status s' = ''failed'')))"

text \<open>
  The pairs (new id, existing id) for which the specification records a contradiction,
  in the order of the two nested loops.
\<close>

definition spec_recorded ::
  "'m KnowledgeNode list \<Rightarrow> 'm KnowledgeNode list \<Rightarrow> (string \<times> string) list" where
  "spec_recorded new_nodes existing_nodes =
     [(n_id n, n_id e). n \<leftarrow> new_nodes, e \<leftarrow> existing_nodes,
        spec_contradicts (n_content n) (n_content e)]"

text \<open>
  The terms of a query and the terms of a list of nodes: the lower-cased tokens between
  whitespace.
\<close>

definition spec_query_terms :: "string \<Rightarrow> string set" where
  "spec_query_terms q = set (py_split (py_lower q))"

definition spec_node_terms :: "'m KnowledgeNode list \<Rightarrow> string set" where
  "spec_node_terms ns = (\<Union>n \<in> set ns. set (py_split (py_lower (n_content n))))"

text \<open>The position of a step name in the list of the step names of a graph.\<close>

definition step_index :: "string list \<Rightarrow> string \<Rightarrow> nat" where
  "step_index names a = length (takeWhile (\<lambda>b. b \<noteq> a) names)"

section \<open>Example inputs\<close>

text \<open>
  Collaborators that never raise: the splitter returns the content as one chunk, the
  stores accept every write.
\<close>

definition demo_env :: IngestionEnv where
  "demo_env =
     \<lparr> split_text = (\<lambda>c. Inr [c]),
       encode = (\<lambda>c. Inr [0]),
       store_embedding = (\<lambda>i v m. Inr ()),
       create_knowledge_node = (\<lambda>i ps. Inr ()),
       create_relationship = (\<lambda>a b t ps. Inr ()),
       now_start = ''2024-01-01T00:00:00'',
       now_end = ''2024-01-01T00:00:09'',
       now_chunk = (\<lambda>i. (''2024-01-01T00:00:01'', ''2024-01-01T00:00:01'')) \<rparr>"

definition demo_content :: string where
  "demo_content = ''The sky is blue and it is not green.''"

definition demo_hit :: "string \<Rightarrow> string \<Rightarrow> real \<Rightarrow> VectorResult" where
  "demo_hit i c sc =
     \<lparr> vr_id = i, vr_score = sc,
       vr_metadata = \<lparr> p_content = Some c, p_created_at = None, p_updated_at = None,
                       p_other = [] \<rparr> \<rparr>"

definition demo_graph_hit :: "string \<Rightarrow> string \<Rightarrow> real \<Rightarrow> GraphResult" where
  "demo_graph_hit i c sc =
     \<lparr> gr_node = \<lparr> gn_id = Some i, gn_content = Some c, gn_metadata = None,
                   gn_created_at = None, gn_updated_at = None \<rparr>,
       gr_score = sc \<rparr>"

text \<open>
  A reasoning environment whose vector store returns the given hits and whose graph
  store returns the given matches; the language model answers every prompt.
\<close>

definition demo_renv :: "VectorResult list \<Rightarrow> GraphResult list \<Rightarrow> ReasoningEnv" where
  "demo_renv hits matches =
     \<lparr> llm = (\<lambda>p. Inr ''It is so, with high confidence.''),
       embed_query = (\<lambda>q. Inr [0]),
       search_similar = (\<lambda>v k. hits),
       search_nodes = (\<lambda>q k. Inr matches),
       set_iter = (\<lambda>S. []),
       r_now_start = ''2024-01-01T00:00:00'',
       r_now_end = ''2024-01-01T00:00:09'' \<rparr>"

text \<open>The same environment with a graph store that raises.\<close>

definition failing_renv :: "VectorResult list \<Rightarrow> ReasoningEnv" where
  "failing_renv hits =
     (demo_renv hits [])
       \<lparr> search_nodes := (\<lambda>q k. Inl (Exn ''ServiceUnavailable'' ''graph store down'')) \<rparr>"

text \<open>The same collaborators with a splitter that returns no chunk.\<close>

definition demo_env_no_chunks :: IngestionEnv where
  "demo_env_no_chunks = demo_env \<lparr> split_text := (\<lambda>c. Inr []) \<rparr>"

text \<open>Two stored nodes, each of which contradicts itself and the other.\<close>

definition demo_conflicts :: "VectorResult list" where
  "demo_conflicts =
     [demo_hit ''a'' ''It is not so.'' 0.9, demo_hit ''b'' ''This is not true.'' 0.8]"

text \<open>Vector hits with a repeated id, and graph matches of which one repeats a vector id.\<close>

definition demo_hits :: "VectorResult list" where
  "demo_hits =
     [demo_hit ''a'' ''first'' 0.9, demo_hit ''a'' ''second'' 0.5, demo_hit ''b'' ''third'' 0.4]"

definition demo_matches :: "GraphResult list" where
  "demo_matches = [demo_graph_hit ''a'' ''fourth'' 0.3, demo_graph_hit ''c'' ''fifth'' 0.7]"

definition demo_node :: "string \<Rightarrow> string \<Rightarrow> Payload KnowledgeNode" where
  "demo_node i c = vector_node (demo_hit i c 0.5)"

section \<open>Properties of the string functions\<close>

text \<open>\<open>py_in\<close> is the test for a contiguous substring.\<close>

lemma starts_with_iff: "starts_with needle hay \<longleftrightarrow> (\<exists>ss. hay = needle @ ss)"
  by (induction needle hay rule: starts_with.induct) auto

lemma py_in_iff: "py_in needle hay \<longleftrightarrow> (\<exists>ps ss. hay = ps @ needle @ ss)"
proof (induction hay)
  case Nil
  then show ?case by auto
next
  case (Cons h hs)
  show ?case
  proof
    assume "py_in needle (h # hs)"
    then consider "starts_with needle (h # hs)" | "py_in needle hs" by auto
    then show "\<exists>ps ss. h # hs = ps @ needle @ ss"
    proof cases
      case 1
      then obtain ss where "h # hs = needle @ ss" using starts_with_iff by blast
      then have "h # hs = [] @ needle @ ss" by simp
      then show ?thesis by blast
    next
      case 2
      then obtain ps ss where "hs = ps @ needle @ ss" using Cons.IH by blast
      then have "h # hs = (h # ps) @ needle @ ss" by simp
      then show ?thesis by blast
    qed
  next
    assume "\<exists>ps ss. h # hs = ps @ needle @ ss"
    then obtain ps ss where eq: "h # hs = ps @ needle @ ss" by blast
    show "py_in needle (h # hs)"
    proof (cases ps)
      case Nil
      with eq have "starts_with needle (h # hs)" using starts_with_iff by auto
      then show ?thesis by simp
    next
      case (Cons p ps')
      with eq have "hs = ps' @ needle @ ss" by simp
      then have "py_in needle hs" using Cons.IH by blast
      then show ?thesis by simp
    qed
  qed
qed

section \<open>Properties of the engine\<close>

text \<open>One invocation of a step, by the three ways in which it can go on.\<close>

lemma exec_SucE:
  assumes "exec g (Suc fuel) name s = Some x"
  obtains
    (raised) step e where "map_of (nodes g) name = Some step" "step s = Inl e"
      "x = \<lparr> steps_run = [name], states_out = [], outcome = Inl e \<rparr>"
  | (ended) step s' ed where "map_of (nodes g) name = Some step" "step s = Inr s'"
      "map_of (edges g) name = Some ed" "successor ed s' = Some END"
      "x = \<lparr> steps_run = [name], states_out = [s'], outcome = Inr s' \<rparr>"
  | (moved) step s' ed nxt x' where "map_of (nodes g) name = Some step" "step s = Inr s'"
      "map_of (edges g) name = Some ed" "successor ed s' = Some nxt" "nxt \<noteq> END"
      "exec g fuel nxt s' = Some x'"
      "x = \<lparr> steps_run = name # steps_run x', states_out = s' # states_out x',
             outcome = outcome x' \<rparr>"
  using assms by (auto split: option.splits sum.splits if_splits)

lemma exec_shape:
  "exec g fuel name s = Some x \<Longrightarrow>
     steps_run x \<noteq> [] \<and> hd (steps_run x) = name \<and>
     (case outcome x of
        Inl e \<Rightarrow> length (steps_run x) = Suc (length (states_out x))
      | Inr r \<Rightarrow> length (steps_run x) = length (states_out x) \<and> states_out x \<noteq> [] \<and>
                 last (states_out x) = r)"
proof (induction fuel arbitrary: name s x)
  case 0
  then show ?case by simp
next
  case (Suc fuel)
  from Suc.prems show ?case
  proof (cases rule: exec_SucE)
    case (raised step e)
    then show ?thesis by simp
  next
    case (ended step s' ed)
    then show ?thesis by simp
  next
    case (moved step s' ed nxt x')
    from Suc.IH [OF moved(6)] moved(7) show ?thesis
      by (cases "outcome x'") simp_all
  qed
qed

lemma exec_invariant:
  assumes step: "\<And>name step s s'. map_of (nodes g) name = Some step \<Longrightarrow> step s = Inr s' \<Longrightarrow> P s \<Longrightarrow> P s'"
  shows "exec g fuel name s = Some x \<Longrightarrow> P s \<Longrightarrow> \<forall>t \<in> set (states_out x). P t"
proof (induction fuel arbitrary: name s x)
  case 0
  then show ?case by simp
next
  case (Suc fuel)
  from Suc.prems(1) show ?case
  proof (cases rule: exec_SucE)
    case (raised step' e)
    then show ?thesis by simp
  next
    case (ended step' s' ed)
    with step [of name step' s s'] Suc.prems(2) show ?thesis by simp
  next
    case (moved step' s' ed nxt x')
    have "P s'" using step [of name step' s s'] moved Suc.prems(2) by simp
    with Suc.IH [OF moved(6)] moved(7) show ?thesis by simp
  qed
qed

lemma exec_last_step:
  "exec g fuel name s = Some x \<Longrightarrow> outcome x = Inl e \<Longrightarrow>
   \<exists>step. map_of (nodes g) (last (steps_run x)) = Some step \<and>
          step (last (s # states_out x)) = Inl e"
proof (induction fuel arbitrary: name s x)
  case 0
  then show ?case by simp
next
  case (Suc fuel)
  from Suc.prems(1) show ?case
  proof (cases rule: exec_SucE)
    case (raised step' e')
    with Suc.prems(2) show ?thesis by simp
  next
    case (ended step' s' ed)
    with Suc.prems(2) show ?thesis by simp
  next
    case (moved step' s' ed nxt x')
    have ne: "steps_run x' \<noteq> []" using exec_shape [OF moved(6)] by simp
    have "outcome x' = Inl e" using moved(7) Suc.prems(2) by simp
    from Suc.IH [OF moved(6) this] moved(7) ne show ?thesis by simp
  qed
qed

text \<open>
  When every edge leads to a step of higher rank, the steps of an execution are invoked
  in the order of their ranks, so that none is invoked twice.
\<close>

lemma exec_ranked:
  assumes up: "\<And>name ed s nxt. map_of (edges g) name = Some ed \<Longrightarrow> successor ed s = Some nxt \<Longrightarrow>
                 nxt \<noteq> END \<Longrightarrow> rank name < rank nxt"
  shows "exec g fuel name s = Some x \<Longrightarrow> sorted_wrt (\<lambda>a b. rank a < (rank b :: nat)) (steps_run x)"
proof (induction fuel arbitrary: name s x)
  case 0
  then show ?case by simp
next
  case (Suc fuel)
  from Suc.prems show ?case
  proof (cases rule: exec_SucE)
    case (raised step e)
    then show ?thesis by simp
  next
    case (ended step s' ed)
    then show ?thesis by simp
  next
    case (moved step s' ed nxt x')
    have lt: "rank name < rank nxt" using up moved by blast
    have sw: "sorted_wrt (\<lambda>a b. rank a < rank b) (steps_run x')" by (rule Suc.IH [OF moved(6)])
    have hd: "steps_run x' \<noteq> []" "hd (steps_run x') = nxt"
      using exec_shape [OF moved(6)] by simp_all
    have "\<forall>b \<in> set (steps_run x'). rank nxt \<le> rank b"
      using sw hd by (cases "steps_run x'") (auto simp: less_imp_le)
    then have "\<forall>b \<in> set (steps_run x'). rank name < rank b"
      using lt by auto
    with sw moved(7) show ?thesis by simp
  qed
qed

lemma sorted_wrt_rank_distinct:
  "sorted_wrt (\<lambda>a b. rank a < (rank b :: nat)) xs \<Longrightarrow> distinct xs"
  by (induction xs) auto

text \<open>
  Steps keep a property \<open>Q\<close> of the state, except steps that lead to \<open>END\<close>, which may
  establish \<open>F\<close> instead: then every state but the final one satisfies \<open>Q\<close>.
\<close>

lemma exec_terminal:
  assumes step: "\<And>name step s s'. map_of (nodes g) name = Some step \<Longrightarrow> step s = Inr s' \<Longrightarrow> Q s \<Longrightarrow>
                   Q s' \<or> (F s' \<and> map_of (edges g) name = Some (Edge END))"
  shows "exec g fuel name s = Some x \<Longrightarrow> Q s \<Longrightarrow>
         (\<forall>t \<in> set (butlast (states_out x)). Q t) \<and>
         (case outcome x of Inl e \<Rightarrow> \<forall>t \<in> set (states_out x). Q t | Inr r \<Rightarrow> Q r \<or> F r)"
proof (induction fuel arbitrary: name s x)
  case 0
  then show ?case by simp
next
  case (Suc fuel)
  from Suc.prems(1) show ?case
  proof (cases rule: exec_SucE)
    case (raised step' e)
    then show ?thesis by simp
  next
    case (ended step' s' ed)
    with step [of name step' s s'] Suc.prems(2) show ?thesis by auto
  next
    case (moved step' s' ed nxt x')
    have "Q s' \<or> (F s' \<and> map_of (edges g) name = Some (Edge END))"
      using step [of name step' s s'] moved Suc.prems(2) by simp
    moreover have "map_of (edges g) name \<noteq> Some (Edge END)"
      using moved(3,4,5) by auto
    ultimately have q: "Q s'" by blast
    have ne: "states_out x' \<noteq> [] \<or> (\<exists>e. outcome x' = Inl e)"
      using exec_shape [OF moved(6)] by (cases "outcome x'") auto
    from Suc.IH [OF moved(6) q] moved(7) q show ?thesis
      by (cases "outcome x'") (auto simp: butlast.simps split: if_splits dest: in_set_butlastD)
  qed
qed

text \<open>One invocation of a step whose step function and outgoing edge are known.\<close>

lemma exec_Edge:
  assumes "map_of (nodes g) name = Some step" "map_of (edges g) name = Some (Edge nxt)" "nxt \<noteq> END"
  shows "exec g (Suc fuel) name s =
     (case step s of
        Inl e \<Rightarrow> Some \<lparr> steps_run = [name], states_out = [], outcome = Inl e \<rparr>
      | Inr s' \<Rightarrow>
          (case exec g fuel nxt s' of
             None \<Rightarrow> None
           | Some x \<Rightarrow> Some \<lparr> steps_run = name # steps_run x, states_out = s' # states_out x,
                              outcome = outcome x \<rparr>))"
  using assms by (simp split: sum.splits)

lemma exec_Edge_END:
  assumes "map_of (nodes g) name = Some step" "map_of (edges g) name = Some (Edge END)"
  shows "exec g (Suc fuel) name s =
     (case step s of
        Inl e \<Rightarrow> Some \<lparr> steps_run = [name], states_out = [], outcome = Inl e \<rparr>
      | Inr s' \<Rightarrow> Some \<lparr> steps_run = [name], states_out = [s'], outcome = Inr s' \<rparr>)"
  using assms by (simp split: sum.splits)

lemma exec_Conditional:
  assumes "map_of (nodes g) name = Some step"
    "map_of (edges g) name = Some (ConditionalEdges p table)"
  shows "exec g (Suc fuel) name s =
     (case step s of
        Inl e \<Rightarrow> Some \<lparr> steps_run = [name], states_out = [], outcome = Inl e \<rparr>
      | Inr s' \<Rightarrow>
          (case map_of table (p s') of
             None \<Rightarrow> None
           | Some nxt \<Rightarrow>
               if nxt = END
               then Some \<lparr> steps_run = [name], states_out = [s'], outcome = Inr s' \<rparr>
               else (case exec g fuel nxt s' of
                       None \<Rightarrow> None
                     | Some x \<Rightarrow> Some \<lparr> steps_run = name # steps_run x,
                                        states_out = s' # states_out x,
                                        outcome = outcome x \<rparr>)))"
  using assms by (simp split: sum.splits)

declare exec.simps [simp del]

section \<open>Properties of the ingestion graph\<close>

lemma knowledge_nodes_lookup:
  "map_of (nodes (knowledge_build_workflow env)) ''validate_content'' = Some wf_validate_content"
  "map_of (nodes (knowledge_build_workflow env)) ''process_content'' = Some (wf_process_content env)"
  "map_of (nodes (knowledge_build_workflow env)) ''check_alignment'' = Some wf_check_alignment"
  "map_of (nodes (knowledge_build_workflow env)) ''detect_contradictions'' = Some wf_detect_contradictions"
  "map_of (nodes (knowledge_build_workflow env)) ''store_embeddings'' = Some (wf_store_embeddings env)"
  "map_of (nodes (knowledge_build_workflow env)) ''update_graph'' = Some (wf_update_graph env)"
  "map_of (nodes (knowledge_build_workflow env)) ''finalize_ingestion'' = Some (finalize_ingestion env)"
  by (simp_all add: knowledge_build_workflow_def)

lemma knowledge_edges_lookup:
  "map_of (edges (knowledge_build_workflow env)) ''validate_content'' =
     Some (ConditionalEdges should_process [(''process'', ''process_content''), (''reject'', END)])"
  "map_of (edges (knowledge_build_workflow env)) ''process_content'' = Some (Edge ''check_alignment'')"
  "map_of (edges (knowledge_build_workflow env)) ''check_alignment'' = Some (Edge ''detect_contradictions'')"
  "map_of (edges (knowledge_build_workflow env)) ''detect_contradictions'' =
     Some (ConditionalEdges should_store [(''store'', ''store_embeddings''), (''review'', END)])"
  "map_of (edges (knowledge_build_workflow env)) ''store_embeddings'' = Some (Edge ''update_graph'')"
  "map_of (edges (knowledge_build_workflow env)) ''update_graph'' = Some (Edge ''finalize_ingestion'')"
  "map_of (edges (knowledge_build_workflow env)) ''finalize_ingestion'' = Some (Edge END)"
  by (simp_all add: knowledge_build_workflow_def)

lemma names_not_END:
  "''process_content'' \<noteq> END" "''check_alignment'' \<noteq> END" "''detect_contradictions'' \<noteq> END"
  "''store_embeddings'' \<noteq> END" "''update_graph'' \<noteq> END" "''finalize_ingestion'' \<noteq> END"
  by (simp_all add: END_def)

lemmas knowledge_unfold =
  exec_Edge_END [OF knowledge_nodes_lookup(7) knowledge_edges_lookup(7)]
  exec_Edge [OF knowledge_nodes_lookup(6) knowledge_edges_lookup(6) names_not_END(6)]
  exec_Edge [OF knowledge_nodes_lookup(5) knowledge_edges_lookup(5) names_not_END(5)]
  exec_Conditional [OF knowledge_nodes_lookup(4) knowledge_edges_lookup(4)]
  exec_Edge [OF knowledge_nodes_lookup(3) knowledge_edges_lookup(3) names_not_END(3)]
  exec_Edge [OF knowledge_nodes_lookup(2) knowledge_edges_lookup(2) names_not_END(2)]
  exec_Conditional [OF knowledge_nodes_lookup(1) knowledge_edges_lookup(1)]

lemma knowledge_fuel: "length (nodes (knowledge_build_workflow env)) = Suc (Suc (Suc (Suc (Suc (Suc (Suc 0))))))"
  by (simp add: knowledge_build_workflow_def)

lemma knowledge_entry: "entry_point (knowledge_build_workflow env) = ''validate_content''"
  by (simp add: knowledge_build_workflow_def)

lemma knowledge_execution_exec:
  "knowledge_execution env wid c md src =
     exec (knowledge_build_workflow env) (Suc (Suc (Suc (Suc (Suc (Suc (Suc 0)))))))
       ''validate_content'' (knowledge_initial_state env wid c md src)"
  unfolding knowledge_execution_def ainvoke_def knowledge_fuel knowledge_entry ..

lemma knowledge_exec_total:
  "\<exists>x. exec (knowledge_build_workflow env) (Suc (Suc (Suc (Suc (Suc (Suc (Suc 0)))))))
          ''validate_content'' s = Some x"
  by (simp add: knowledge_unfold should_process_def should_store_def END_def finalize_ingestion_def
        split: sum.split option.split)

lemma knowledge_execution_total:
  "\<exists>x. knowledge_execution env wid c md src = Some x"
  unfolding knowledge_execution_exec by (rule knowledge_exec_total)

lemma knowledge_initial_fields:
  "status (knowledge_initial_state env wid c md src) = ''running''"
  "end_time (knowledge_initial_state env wid c md src) = None"
  "embedding_generated (knowledge_initial_state env wid c md src) = False"
  by (simp_all add: knowledge_initial_state_def)

lemma knowledge_failed_fields:
  "status (knowledge_failed env s e) = ''failed''"
  "end_time (knowledge_failed env s e) = Some (now_end env)"
  "error (knowledge_failed env s e) = Some (exn_str e)"
  "embedding_generated (knowledge_failed env s e) = embedding_generated s"
  by (simp_all add: knowledge_failed_def)

subsection \<open>What each ingestion step leaves unchanged\<close>

lemma wf_validate_content_frame:
  "wf_validate_content s = Inr s' \<Longrightarrow>
   status s' = status s \<and> end_time s' = end_time s \<and>
   embedding_generated s' = embedding_generated s"
  by (auto simp: wf_validate_content_def Let_def)

lemma wf_process_content_frame:
  "wf_process_content env s = Inr s' \<Longrightarrow>
   status s' = status s \<and> end_time s' = end_time s \<and>
   embedding_generated s' = embedding_generated s"
  by (auto simp: wf_process_content_def split: sum.splits)

lemma wf_check_alignment_frame:
  "wf_check_alignment s = Inr s' \<Longrightarrow>
   status s' = status s \<and> end_time s' = end_time s \<and>
   embedding_generated s' = embedding_generated s"
  by (auto simp: wf_check_alignment_def Let_def split: sum.splits)

lemma wf_detect_contradictions_frame:
  "wf_detect_contradictions s = Inr s' \<Longrightarrow>
   status s' = status s \<and> end_time s' = end_time s \<and>
   embedding_generated s' = embedding_generated s"
  by (auto simp: wf_detect_contradictions_def Let_def split: sum.splits)

lemma wf_store_embeddings_frame:
  "wf_store_embeddings env s = Inr s' \<Longrightarrow>
   status s' = status s \<and> end_time s' = end_time s \<and>
   embedding_generated s' = embedding_generated s"
  by (auto simp: wf_store_embeddings_def split: sum.splits)

lemma wf_update_graph_frame:
  "wf_update_graph env s = Inr s' \<Longrightarrow>
   status s' = status s \<and> end_time s' = end_time s \<and>
   embedding_generated s' = embedding_generated s"
  by (auto simp: wf_update_graph_def Let_def split: sum.splits)

lemma finalize_ingestion_frame:
  "finalize_ingestion env s = Inr s' \<Longrightarrow>
   status s' = ''completed'' \<and> end_time s' = Some (now_end env) \<and>
   embedding_generated s' = embedding_generated s"
  by (auto simp: finalize_ingestion_def)

lemma knowledge_nodes_cases:
  assumes "map_of (nodes (knowledge_build_workflow env)) name = Some step"
  obtains
      "name = ''validate_content''" "step = wf_validate_content"
    | "name = ''process_content''" "step = wf_process_content env"
    | "name = ''check_alignment''" "step = wf_check_alignment"
    | "name = ''detect_contradictions''" "step = wf_detect_contradictions"
    | "name = ''store_embeddings''" "step = wf_store_embeddings env"
    | "name = ''update_graph''" "step = wf_update_graph env"
    | "name = ''finalize_ingestion''" "step = finalize_ingestion env"
proof -
  have "(name, step) \<in> set (nodes (knowledge_build_workflow env))"
    using assms by (rule map_of_SomeD)
  then have
    "(name = ''validate_content'' \<and> step = wf_validate_content)
     \<or> (name = ''process_content'' \<and> step = wf_process_content env)
     \<or> (name = ''check_alignment'' \<and> step = wf_check_alignment)
     \<or> (name = ''detect_contradictions'' \<and> step = wf_detect_contradictions)
     \<or> (name = ''store_embeddings'' \<and> step = wf_store_embeddings env)
     \<or> (name = ''update_graph'' \<and> step = wf_update_graph env)
     \<or> (name = ''finalize_ingestion'' \<and> step = finalize_ingestion env)"
    unfolding knowledge_build_workflow_def StateGraph.simps set_simps insert_iff empty_iff
      prod.inject
    by (simp only: simp_thms)
  then show thesis
    by (elim disjE conjE) (erule that | assumption)+
qed

lemma knowledge_step_running:
  assumes "map_of (nodes (knowledge_build_workflow env)) name = Some step"
    and "step s = Inr s'"
    and "status s = ''running'' \<and> end_time s = None"
  shows "(status s' = ''running'' \<and> end_time s' = None)
       \<or> ((status s' = ''completed'' \<and> end_time s' \<noteq> None)
          \<and> map_of (edges (knowledge_build_workflow env)) name = Some (Edge END))"
  using assms(1)
proof (cases rule: knowledge_nodes_cases)
  case 1
  with assms(2,3) wf_validate_content_frame [of s s'] show ?thesis by simp
next
  case 2
  with assms(2,3) wf_process_content_frame [of env s s'] show ?thesis by simp
next
  case 3
  with assms(2,3) wf_check_alignment_frame [of s s'] show ?thesis by simp
next
  case 4
  with assms(2,3) wf_detect_contradictions_frame [of s s'] show ?thesis by simp
next
  case 5
  with assms(2,3) wf_store_embeddings_frame [of env s s'] show ?thesis by simp
next
  case 6
  with assms(2,3) wf_update_graph_frame [of env s s'] show ?thesis by simp
next
  case 7
  with assms(2,3) finalize_ingestion_frame [of env s s'] show ?thesis
    by (simp add: knowledge_edges_lookup)
qed

lemma knowledge_step_embedding:
  assumes "map_of (nodes (knowledge_build_workflow env)) name = Some step"
    and "step s = Inr s'"
    and "\<not> embedding_generated s"
  shows "\<not> embedding_generated s'"
  using assms(1)
proof (cases rule: knowledge_nodes_cases)
  case 1
  with assms(2,3) wf_validate_content_frame [of s s'] show ?thesis by simp
next
  case 2
  with assms(2,3) wf_process_content_frame [of env s s'] show ?thesis by simp
next
  case 3
  with assms(2,3) wf_check_alignment_frame [of s s'] show ?thesis by simp
next
  case 4
  with assms(2,3) wf_detect_contradictions_frame [of s s'] show ?thesis by simp
next
  case 5
  with assms(2,3) wf_store_embeddings_frame [of env s s'] show ?thesis by simp
next
  case 6
  with assms(2,3) wf_update_graph_frame [of env s s'] show ?thesis by simp
next
  case 7
  with assms(2,3) finalize_ingestion_frame [of env s s'] show ?thesis by simp
qed

subsection \<open>The order of the ingestion steps\<close>

lemma knowledge_edges_cases:
  assumes "map_of (edges (knowledge_build_workflow env)) name = Some ed"
  obtains
      "name = ''validate_content''"
        "ed = ConditionalEdges should_process [(''process'', ''process_content''), (''reject'', END)]"
    | "name = ''process_content''" "ed = Edge ''check_alignment''"
    | "name = ''check_alignment''" "ed = Edge ''detect_contradictions''"
    | "name = ''detect_contradictions''"
        "ed = ConditionalEdges should_store [(''store'', ''store_embeddings''), (''review'', END)]"
    | "name = ''store_embeddings''" "ed = Edge ''update_graph''"
    | "name = ''update_graph''" "ed = Edge ''finalize_ingestion''"
    | "name = ''finalize_ingestion''" "ed = Edge END"
proof -
  have "(name, ed) \<in> set (edges (knowledge_build_workflow env))"
    using assms by (rule map_of_SomeD)
  then have
    "(name = ''validate_content'' \<and>
      ed = ConditionalEdges should_process [(''process'', ''process_content''), (''reject'', END)])
     \<or> (name = ''process_content'' \<and> ed = Edge ''check_alignment'')
     \<or> (name = ''check_alignment'' \<and> ed = Edge ''detect_contradictions'')
     \<or> (name = ''detect_contradictions'' \<and>
         ed = ConditionalEdges should_store [(''store'', ''store_embeddings''), (''review'', END)])
     \<or> (name = ''store_embeddings'' \<and> ed = Edge ''update_graph'')
     \<or> (name = ''update_graph'' \<and> ed = Edge ''finalize_ingestion'')
     \<or> (name = ''finalize_ingestion'' \<and> ed = Edge END)"
    unfolding knowledge_build_workflow_def StateGraph.simps set_simps insert_iff empty_iff
      prod.inject
    by (simp only: simp_thms)
  then show thesis
    by (elim disjE conjE) (erule that | assumption)+
qed

lemma knowledge_index:
  "step_index (map fst (nodes (knowledge_build_workflow env))) ''validate_content'' = 0"
  "step_index (map fst (nodes (knowledge_build_workflow env))) ''process_content'' = 1"
  "step_index (map fst (nodes (knowledge_build_workflow env))) ''check_alignment'' = 2"
  "step_index (map fst (nodes (knowledge_build_workflow env))) ''detect_contradictions'' = 3"
  "step_index (map fst (nodes (knowledge_build_workflow env))) ''store_embeddings'' = 4"
  "step_index (map fst (nodes (knowledge_build_workflow env))) ''update_graph'' = 5"
  "step_index (map fst (nodes (knowledge_build_workflow env))) ''finalize_ingestion'' = 6"
  by (simp_all add: step_index_def knowledge_build_workflow_def)

lemma knowledge_edges_ranked:
  assumes "map_of (edges (knowledge_build_workflow env)) name = Some ed"
    and "successor ed s = Some nxt" and "nxt \<noteq> END"
  shows "step_index (map fst (nodes (knowledge_build_workflow env))) name
       < step_index (map fst (nodes (knowledge_build_workflow env))) nxt"
  using assms(1)
proof (cases rule: knowledge_edges_cases)
  case 1
  from assms(2) have "(should_process s, nxt) \<in> set [(''process'', ''process_content''), (''reject'', END)]"
    unfolding 1 successor.simps by (rule map_of_SomeD)
  with assms(3) have "nxt = ''process_content''" by auto
  then show ?thesis by (simp add: 1 knowledge_index)
next
  case 2
  with assms(2) have "nxt = ''check_alignment''" by simp
  then show ?thesis by (simp add: 2 knowledge_index)
next
  case 3
  with assms(2) have "nxt = ''detect_contradictions''" by simp
  then show ?thesis by (simp add: 3 knowledge_index)
next
  case 4
  from assms(2) have "(should_store s, nxt) \<in> set [(''store'', ''store_embeddings''), (''review'', END)]"
    unfolding 4 successor.simps by (rule map_of_SomeD)
  with assms(3) have "nxt = ''store_embeddings''" by auto
  then show ?thesis by (simp add: 4 knowledge_index)
next
  case 5
  with assms(2) have "nxt = ''update_graph''" by simp
  then show ?thesis by (simp add: 5 knowledge_index)
next
  case 6
  with assms(2) have "nxt = ''finalize_ingestion''" by simp
  then show ?thesis by (simp add: 6 knowledge_index)
next
  case 7
  with assms(2,3) show ?thesis by simp
qed

lemma knowledge_steps_distinct:
  assumes "knowledge_execution env wid c md src = Some x"
  shows "distinct (steps_run x)"
proof -
  have "sorted_wrt (\<lambda>a b. step_index (map fst (nodes (knowledge_build_workflow env))) a
                         < step_index (map fst (nodes (knowledge_build_workflow env))) b)
          (steps_run x)"
    by (rule exec_ranked [OF knowledge_edges_ranked assms [unfolded knowledge_execution_exec]])
  then show ?thesis by (rule sorted_wrt_rank_distinct)
qed

section \<open>Properties of the reasoning graph\<close>

lemma reasoning_nodes_lookup:
  "map_of (nodes (reasoning_build_workflow env)) ''analyze_query'' = Some (analyze_query env)"
  "map_of (nodes (reasoning_build_workflow env)) ''retrieve_knowledge'' = Some (retrieve_knowledge env)"
  "map_of (nodes (reasoning_build_workflow env)) ''check_contradictions'' = Some check_contradictions"
  "map_of (nodes (reasoning_build_workflow env)) ''generate_reasoning'' = Some (generate_reasoning env)"
  "map_of (nodes (reasoning_build_workflow env)) ''identify_gaps'' = Some (wf_identify_gaps env)"
  "map_of (nodes (reasoning_build_workflow env)) ''formulate_answer'' = Some (formulate_answer env)"
  "map_of (nodes (reasoning_build_workflow env)) ''finalize_reasoning'' = Some (finalize_reasoning env)"
  by (simp_all add: reasoning_build_workflow_def)

lemma reasoning_edges_lookup:
  "map_of (edges (reasoning_build_workflow env)) ''analyze_query'' = Some (Edge ''retrieve_knowledge'')"
  "map_of (edges (reasoning_build_workflow env)) ''retrieve_knowledge'' = Some (Edge ''check_contradictions'')"
  "map_of (edges (reasoning_build_workflow env)) ''check_contradictions'' =
     Some (ConditionalEdges should_continue_reasoning
             [(''continue'', ''generate_reasoning''), (''stop'', ''finalize_reasoning'')])"
  "map_of (edges (reasoning_build_workflow env)) ''generate_reasoning'' = Some (Edge ''identify_gaps'')"
  "map_of (edges (reasoning_build_workflow env)) ''identify_gaps'' = Some (Edge ''formulate_answer'')"
  "map_of (edges (reasoning_build_workflow env)) ''formulate_answer'' = Some (Edge ''finalize_reasoning'')"
  "map_of (edges (reasoning_build_workflow env)) ''finalize_reasoning'' = Some (Edge END)"
  by (simp_all add: reasoning_build_workflow_def)

lemma reasoning_names_not_END:
  "''retrieve_knowledge'' \<noteq> END" "''check_contradictions'' \<noteq> END"
  "''generate_reasoning'' \<noteq> END" "''identify_gaps'' \<noteq> END" "''formulate_answer'' \<noteq> END"
  "''finalize_reasoning'' \<noteq> END"
  by (simp_all add: END_def)

lemmas reasoning_unfold =
  exec_Edge [OF reasoning_nodes_lookup(1) reasoning_edges_lookup(1) reasoning_names_not_END(1)]
  exec_Edge [OF reasoning_nodes_lookup(2) reasoning_edges_lookup(2) reasoning_names_not_END(2)]
  exec_Conditional [OF reasoning_nodes_lookup(3) reasoning_edges_lookup(3)]
  exec_Edge [OF reasoning_nodes_lookup(4) reasoning_edges_lookup(4) reasoning_names_not_END(4)]
  exec_Edge [OF reasoning_nodes_lookup(5) reasoning_edges_lookup(5) reasoning_names_not_END(5)]
  exec_Edge [OF reasoning_nodes_lookup(6) reasoning_edges_lookup(6) reasoning_names_not_END(6)]
  exec_Edge_END [OF reasoning_nodes_lookup(7) reasoning_edges_lookup(7)]

lemma reasoning_fuel:
  "length (nodes (reasoning_build_workflow env)) = Suc (Suc (Suc (Suc (Suc (Suc (Suc 0))))))"
  by (simp add: reasoning_build_workflow_def)

lemma reasoning_entry: "entry_point (reasoning_build_workflow env) = ''analyze_query''"
  by (simp add: reasoning_build_workflow_def)

lemma reasoning_execution_exec:
  "reasoning_execution env wid q ctx =
     exec (reasoning_build_workflow env) (Suc (Suc (Suc (Suc (Suc (Suc (Suc 0)))))))
       ''analyze_query'' (reasoning_initial_state env wid q ctx)"
  unfolding reasoning_execution_def ainvoke_def reasoning_fuel reasoning_entry ..

lemma reasoning_exec_total:
  "\<exists>x. exec (reasoning_build_workflow env) (Suc (Suc (Suc (Suc (Suc (Suc (Suc 0)))))))
          ''analyze_query'' s = Some x"
  by (simp add: reasoning_unfold should_continue_reasoning_def END_def finalize_reasoning_def
        wf_identify_gaps_def Let_def
        split: sum.split option.split)

lemma reasoning_execution_total:
  "\<exists>x. reasoning_execution env wid q ctx = Some x"
  unfolding reasoning_execution_exec by (rule reasoning_exec_total)

lemma reasoning_initial_fields:
  "status (reasoning_initial_state env wid q ctx) = ''running''"
  "end_time (reasoning_initial_state env wid q ctx) = None"
  "answer (reasoning_initial_state env wid q ctx) = None"
  by (simp_all add: reasoning_initial_state_def)

lemma reasoning_failed_fields:
  "status (reasoning_failed env s e) = ''failed''"
  "end_time (reasoning_failed env s e) = Some (r_now_end env)"
  "error (reasoning_failed env s e) = Some (exn_str e)"
  by (simp_all add: reasoning_failed_def)

subsection \<open>What each reasoning step leaves unchanged\<close>

lemma analyze_query_frame:
  "analyze_query env s = Inr s' \<Longrightarrow>
   status s' = status s \<and> end_time s' = end_time s \<and> answer s' = answer s"
  by (auto simp: analyze_query_def split: sum.splits)

lemma retrieve_knowledge_frame:
  "retrieve_knowledge env s = Inr s' \<Longrightarrow>
   status s' = status s \<and> end_time s' = end_time s \<and> answer s' = answer s"
  by (auto simp: retrieve_knowledge_def Let_def split: sum.splits)

lemma check_contradictions_frame:
  "check_contradictions s = Inr s' \<Longrightarrow>
   status s' = status s \<and> end_time s' = end_time s \<and> answer s' = answer s"
  by (auto simp: check_contradictions_def Let_def split: sum.splits)

lemma generate_reasoning_frame:
  "generate_reasoning env s = Inr s' \<Longrightarrow>
   status s' = status s \<and> end_time s' = end_time s \<and> answer s' = answer s"
  by (auto simp: generate_reasoning_def split: sum.splits)

lemma wf_identify_gaps_frame:
  "wf_identify_gaps env s = Inr s' \<Longrightarrow>
   status s' = status s \<and> end_time s' = end_time s \<and> answer s' = answer s"
  by (auto simp: wf_identify_gaps_def Let_def)

lemma formulate_answer_frame:
  "formulate_answer env s = Inr s' \<Longrightarrow>
   status s' = status s \<and> end_time s' = end_time s"
  by (auto simp: formulate_answer_def Let_def split: sum.splits)

lemma finalize_reasoning_frame:
  "finalize_reasoning env s = Inr s' \<Longrightarrow>
   status s' = ''completed'' \<and> end_time s' = Some (r_now_end env) \<and> answer s' = answer s"
  by (auto simp: finalize_reasoning_def)

lemma reasoning_nodes_cases:
  assumes "map_of (nodes (reasoning_build_workflow env)) name = Some step"
  obtains
      "name = ''analyze_query''" "step = analyze_query env"
    | "name = ''retrieve_knowledge''" "step = retrieve_knowledge env"
    | "name = ''check_contradictions''" "step = check_contradictions"
    | "name = ''generate_reasoning''" "step = generate_reasoning env"
    | "name = ''identify_gaps''" "step = wf_identify_gaps env"
    | "name = ''formulate_answer''" "step = formulate_answer env"
    | "name = ''finalize_reasoning''" "step = finalize_reasoning env"
proof -
  have "(name, step) \<in> set (nodes (reasoning_build_workflow env))"
    using assms by (rule map_of_SomeD)
  then have
    "(name = ''analyze_query'' \<and> step = analyze_query env)
     \<or> (name = ''retrieve_knowledge'' \<and> step = retrieve_knowledge env)
     \<or> (name = ''check_contradictions'' \<and> step = check_contradictions)
     \<or> (name = ''generate_reasoning'' \<and> step = generate_reasoning env)
     \<or> (name = ''identify_gaps'' \<and> step = wf_identify_gaps env)
     \<or> (name = ''formulate_answer'' \<and> step = formulate_answer env)
     \<or> (name = ''finalize_reasoning'' \<and> step = finalize_reasoning env)"
    unfolding reasoning_build_workflow_def StateGraph.simps set_simps insert_iff empty_iff
      prod.inject
    by (simp only: simp_thms)
  then show thesis
    by (elim disjE conjE) (erule that | assumption)+
qed

lemma reasoning_step_running:
  assumes "map_of (nodes (reasoning_build_workflow env)) name = Some step"
    and "step s = Inr s'"
    and "status s = ''running'' \<and> end_time s = None"
  shows "(status s' = ''running'' \<and> end_time s' = None)
       \<or> ((status s' = ''completed'' \<and> end_time s' \<noteq> None)
          \<and> map_of (edges (reasoning_build_workflow env)) name = Some (Edge END))"
  using assms(1)
proof (cases rule: reasoning_nodes_cases)
  case 1
  with assms(2,3) analyze_query_frame [of env s s'] show ?thesis by simp
next
  case 2
  with assms(2,3) retrieve_knowledge_frame [of env s s'] show ?thesis by simp
next
  case 3
  with assms(2,3) check_contradictions_frame [of s s'] show ?thesis by simp
next
  case 4
  with assms(2,3) generate_reasoning_frame [of env s s'] show ?thesis by simp
next
  case 5
  with assms(2,3) wf_identify_gaps_frame [of env s s'] show ?thesis by simp
next
  case 6
  with assms(2,3) formulate_answer_frame [of env s s'] show ?thesis by simp
next
  case 7
  with assms(2,3) finalize_reasoning_frame [of env s s'] show ?thesis
    by (simp add: reasoning_edges_lookup)
qed

subsection \<open>The order of the reasoning steps\<close>

lemma reasoning_edges_cases:
  assumes "map_of (edges (reasoning_build_workflow env)) name = Some ed"
  obtains
      "name = ''analyze_query''" "ed = Edge ''retrieve_knowledge''"
    | "name = ''retrieve_knowledge''" "ed = Edge ''check_contradictions''"
    | "name = ''check_contradictions''"
        "ed = ConditionalEdges should_continue_reasoning
               [(''continue'', ''generate_reasoning''), (''stop'', ''finalize_reasoning'')]"
    | "name = ''generate_reasoning''" "ed = Edge ''identify_gaps''"
    | "name = ''identify_gaps''" "ed = Edge ''formulate_answer''"
    | "name = ''formulate_answer''" "ed = Edge ''finalize_reasoning''"
    | "name = ''finalize_reasoning''" "ed = Edge END"
proof -
  have "(name, ed) \<in> set (edges (reasoning_build_workflow env))"
    using assms by (rule map_of_SomeD)
  then have
    "(name = ''analyze_query'' \<and> ed = Edge ''retrieve_knowledge'')
     \<or> (name = ''retrieve_knowledge'' \<and> ed = Edge ''check_contradictions'')
     \<or> (name = ''check_contradictions'' \<and>
         ed = ConditionalEdges should_continue_reasoning
               [(''continue'', ''generate_reasoning''), (''stop'', ''finalize_reasoning'')])
     \<or> (name = ''generate_reasoning'' \<and> ed = Edge ''identify_gaps'')
     \<or> (name = ''identify_gaps'' \<and> ed = Edge ''formulate_answer'')
     \<or> (name = ''formulate_answer'' \<and> ed = Edge ''finalize_reasoning'')
     \<or> (name = ''finalize_reasoning'' \<and> ed = Edge END)"
    unfolding reasoning_build_workflow_def StateGraph.simps set_simps insert_iff empty_iff
      prod.inject
    by (simp only: simp_thms)
  then show thesis
    by (elim disjE conjE) (erule that | assumption)+
qed

lemma reasoning_index:
  "step_index (map fst (nodes (reasoning_build_workflow env))) ''analyze_query'' = 0"
  "step_index (map fst (nodes (reasoning_build_workflow env))) ''retrieve_knowledge'' = 1"
  "step_index (map fst (nodes (reasoning_build_workflow env))) ''check_contradictions'' = 2"
  "step_index (map fst (nodes (reasoning_build_workflow env))) ''generate_reasoning'' = 3"
  "step_index (map fst (nodes (reasoning_build_workflow env))) ''identify_gaps'' = 4"
  "step_index (map fst (nodes (reasoning_build_workflow env))) ''formulate_answer'' = 5"
  "step_index (map fst (nodes (reasoning_build_workflow env))) ''finalize_reasoning'' = 6"
  by (simp_all add: step_index_def reasoning_build_workflow_def)

lemma reasoning_edges_ranked:
  assumes "map_of (edges (reasoning_build_workflow env)) name = Some ed"
    and "successor ed s = Some nxt" and "nxt \<noteq> END"
  shows "step_index (map fst (nodes (reasoning_build_workflow env))) name
       < step_index (map fst (nodes (reasoning_build_workflow env))) nxt"
  using assms(1)
proof (cases rule: reasoning_edges_cases)
  case 1
  with assms(2) have "nxt = ''retrieve_knowledge''" by simp
  then show ?thesis by (simp add: 1 reasoning_index)
next
  case 2
  with assms(2) have "nxt = ''check_contradictions''" by simp
  then show ?thesis by (simp add: 2 reasoning_index)
next
  case 3
  from assms(2) have "(should_continue_reasoning s, nxt) \<in>
      set [(''continue'', ''generate_reasoning''), (''stop'', ''finalize_reasoning'')]"
    unfolding 3 successor.simps by (rule map_of_SomeD)
  then have "nxt = ''generate_reasoning'' \<or> nxt = ''finalize_reasoning''" by auto
  then show ?thesis by (auto simp: 3 reasoning_index)
next
  case 4
  with assms(2) have "nxt = ''identify_gaps''" by simp
  then show ?thesis by (simp add: 4 reasoning_index)
next
  case 5
  with assms(2) have "nxt = ''formulate_answer''" by simp
  then show ?thesis by (simp add: 5 reasoning_index)
next
  case 6
  with assms(2) have "nxt = ''finalize_reasoning''" by simp
  then show ?thesis by (simp add: 6 reasoning_index)
next
  case 7
  with assms(2,3) show ?thesis by simp
qed

lemma reasoning_steps_distinct:
  assumes "reasoning_execution env wid q ctx = Some x"
  shows "distinct (steps_run x)"
proof -
  have "sorted_wrt (\<lambda>a b. step_index (map fst (nodes (reasoning_build_workflow env))) a
                         < step_index (map fst (nodes (reasoning_build_workflow env))) b)
          (steps_run x)"
    by (rule exec_ranked [OF reasoning_edges_ranked assms [unfolded reasoning_execution_exec]])
  then show ?thesis by (rule sorted_wrt_rank_distinct)
qed

section \<open>Failure and status of a run\<close>

lemma knowledge_failure:
  assumes x: "knowledge_execution env wid c md src = Some x" and e: "outcome x = Inl e"
  shows "knowledge_run env wid c md src =
           Some ((knowledge_initial_state env wid c md src)
                   \<lparr> status := ''failed'', error := Some (exn_str e),
                     end_time := Some (now_end env) \<rparr>)
         \<and> distinct (steps_run x)
         \<and> length (steps_run x) = Suc (length (states_out x))
         \<and> (\<exists>step. map_of (nodes (knowledge_build_workflow env)) (last (steps_run x)) = Some step
                \<and> step (last_known (knowledge_initial_state env wid c md src) x) = Inl e)"
proof -
  have ex: "exec (knowledge_build_workflow env) (Suc (Suc (Suc (Suc (Suc (Suc (Suc 0)))))))
       ''validate_content'' (knowledge_initial_state env wid c md src) = Some x"
    using x unfolding knowledge_execution_exec .
  have a: "knowledge_run env wid c md src =
           Some ((knowledge_initial_state env wid c md src)
                   \<lparr> status := ''failed'', error := Some (exn_str e),
                     end_time := Some (now_end env) \<rparr>)"
    using x e by (simp add: knowledge_run_def knowledge_failed_def)
  have b: "length (steps_run x) = Suc (length (states_out x))"
    using exec_shape [OF ex] e by simp
  from a b knowledge_steps_distinct [OF x] exec_last_step [OF ex e]
  show ?thesis unfolding last_known_def by blast
qed

lemma reasoning_failure:
  assumes x: "reasoning_execution env wid q ctx = Some x" and e: "outcome x = Inl e"
  shows "reasoning_run env wid q ctx =
           Some ((reasoning_initial_state env wid q ctx)
                   \<lparr> status := ''failed'', error := Some (exn_str e),
                     end_time := Some (r_now_end env) \<rparr>)
         \<and> distinct (steps_run x)
         \<and> length (steps_run x) = Suc (length (states_out x))
         \<and> (\<exists>step. map_of (nodes (reasoning_build_workflow env)) (last (steps_run x)) = Some step
                \<and> step (last_known (reasoning_initial_state env wid q ctx) x) = Inl e)"
proof -
  have ex: "exec (reasoning_build_workflow env) (Suc (Suc (Suc (Suc (Suc (Suc (Suc 0)))))))
       ''analyze_query'' (reasoning_initial_state env wid q ctx) = Some x"
    using x unfolding reasoning_execution_exec .
  have a: "reasoning_run env wid q ctx =
           Some ((reasoning_initial_state env wid q ctx)
                   \<lparr> status := ''failed'', error := Some (exn_str e),
                     end_time := Some (r_now_end env) \<rparr>)"
    using x e by (simp add: reasoning_run_def reasoning_failed_def)
  have b: "length (steps_run x) = Suc (length (states_out x))"
    using exec_shape [OF ex] e by simp
  from a b reasoning_steps_distinct [OF x] exec_last_step [OF ex e]
  show ?thesis unfolding last_known_def by blast
qed

lemma successively_running:
  fixes xs :: "'a WorkflowState_scheme list"
  assumes "\<forall>t \<in> set (butlast xs). status t = ''running''"
    and "xs \<noteq> [] \<longrightarrow> status (last xs) = ''running'' \<or> status (last xs) = ''completed''
           \<or> status (last xs) = ''failed''"
  shows "successively status_transition xs"
  using assms
proof (induction xs rule: induct_list012)
  case 1
  then show ?case by simp
next
  case (2 x)
  then show ?case by simp
next
  case (3 x y zs)
  then show ?case
    by (cases zs) (auto simp: status_transition_def)
qed

lemma discipline_from_running:
  fixes xs :: "'a WorkflowState_scheme list"
  assumes q: "\<forall>t \<in> set (butlast xs). status t = ''running'' \<and> end_time t = None"
    and ne: "xs \<noteq> []"
    and l: "(status (last xs) = ''running'' \<and> end_time (last xs) = None) \<or>
            ((status (last xs) = ''completed'' \<or> status (last xs) = ''failed'') \<and>
             end_time (last xs) \<noteq> None)"
  shows "(\<forall>s \<in> set xs. end_time_iff_not_running s) \<and> successively status_transition xs
         \<and> (\<forall>s \<in> set (butlast xs). status s = ''running'')"
proof -
  have split: "xs = butlast xs @ [last xs]" using ne by simp
  have "\<forall>s \<in> set (butlast xs @ [last xs]). end_time_iff_not_running s"
    using q l by (auto simp: end_time_iff_not_running_def)
  then have a: "\<forall>s \<in> set xs. end_time_iff_not_running s" using split by simp
  have b: "successively status_transition xs"
    by (rule successively_running) (use q l in auto)
  from a b q show ?thesis by blast
qed

lemma knowledge_states_running:
  "(\<forall>t \<in> set (butlast (knowledge_states env wid c md src)).
       status t = ''running'' \<and> end_time t = None)
   \<and> knowledge_states env wid c md src \<noteq> []
   \<and> ((status (last (knowledge_states env wid c md src)) = ''running'' \<and>
        end_time (last (knowledge_states env wid c md src)) = None) \<or>
       ((status (last (knowledge_states env wid c md src)) = ''completed'' \<or>
         status (last (knowledge_states env wid c md src)) = ''failed'') \<and>
        end_time (last (knowledge_states env wid c md src)) \<noteq> None))
   \<and> knowledge_run env wid c md src = Some (last (knowledge_states env wid c md src))
   \<and> hd (knowledge_states env wid c md src) = knowledge_initial_state env wid c md src"
proof -
  obtain x where x: "knowledge_execution env wid c md src = Some x"
    using knowledge_execution_total by blast
  let ?init = "knowledge_initial_state env wid c md src"
  have ex: "exec (knowledge_build_workflow env) (Suc (Suc (Suc (Suc (Suc (Suc (Suc 0)))))))
       ''validate_content'' ?init = Some x"
    using x unfolding knowledge_execution_exec .
  have q0: "status ?init = ''running'' \<and> end_time ?init = None"
    by (simp add: knowledge_initial_fields)
  have t: "(\<forall>t \<in> set (butlast (states_out x)). status t = ''running'' \<and> end_time t = None) \<and>
         (case outcome x of
            Inl e \<Rightarrow> \<forall>t \<in> set (states_out x). status t = ''running'' \<and> end_time t = None
          | Inr r \<Rightarrow> (status r = ''running'' \<and> end_time r = None) \<or>
                     (status r = ''completed'' \<and> end_time r \<noteq> None))"
    by (rule exec_terminal [where Q = "\<lambda>s. status s = ''running'' \<and> end_time s = None"
          and F = "\<lambda>s. status s = ''completed'' \<and> end_time s \<noteq> None", OF _ ex q0])
       (rule knowledge_step_running)
  show ?thesis
  proof (cases "outcome x")
    case (Inl e)
    have st: "knowledge_states env wid c md src = (?init # states_out x) @ [knowledge_failed env ?init e]"
      using x Inl by (simp add: knowledge_states_def)
    show ?thesis
      unfolding st using t Inl x q0
      by (simp add: knowledge_run_def knowledge_failed_fields)
  next
    case (Inr r)
    have sh: "states_out x \<noteq> []" "last (states_out x) = r"
      using exec_shape [OF ex] Inr by simp_all
    have st: "knowledge_states env wid c md src = ?init # states_out x"
      using x Inr by (simp add: knowledge_states_def)
    show ?thesis
      unfolding st using t Inr x q0 sh
      by (auto simp: knowledge_run_def)
  qed
qed

lemma reasoning_states_running:
  "(\<forall>t \<in> set (butlast (reasoning_states env wid q ctx)).
       status t = ''running'' \<and> end_time t = None)
   \<and> reasoning_states env wid q ctx \<noteq> []
   \<and> ((status (last (reasoning_states env wid q ctx)) = ''running'' \<and>
        end_time (last (reasoning_states env wid q ctx)) = None) \<or>
       ((status (last (reasoning_states env wid q ctx)) = ''completed'' \<or>
         status (last (reasoning_states env wid q ctx)) = ''failed'') \<and>
        end_time (last (reasoning_states env wid q ctx)) \<noteq> None))
   \<and> reasoning_run env wid q ctx = Some (last (reasoning_states env wid q ctx))
   \<and> hd (reasoning_states env wid q ctx) = reasoning_initial_state env wid q ctx"
proof -
  obtain x where x: "reasoning_execution env wid q ctx = Some x"
    using reasoning_execution_total by blast
  let ?init = "reasoning_initial_state env wid q ctx"
  have ex: "exec (reasoning_build_workflow env) (Suc (Suc (Suc (Suc (Suc (Suc (Suc 0)))))))
       ''analyze_query'' ?init = Some x"
    using x unfolding reasoning_execution_exec .
  have q0: "status ?init = ''running'' \<and> end_time ?init = None"
    by (simp add: reasoning_initial_fields)
  have t: "(\<forall>t \<in> set (butlast (states_out x)). status t = ''running'' \<and> end_time t = None) \<and>
         (case outcome x of
            Inl e \<Rightarrow> \<forall>t \<in> set (states_out x). status t = ''running'' \<and> end_time t = None
          | Inr r \<Rightarrow> (status r = ''running'' \<and> end_time r = None) \<or>
                     (status r = ''completed'' \<and> end_time r \<noteq> None))"
    by (rule exec_terminal [where Q = "\<lambda>s. status s = ''running'' \<and> end_time s = None"
          and F = "\<lambda>s. status s = ''completed'' \<and> end_time s \<noteq> None", OF _ ex q0])
       (rule reasoning_step_running)
  show ?thesis
  proof (cases "outcome x")
    case (Inl e)
    have st: "reasoning_states env wid q ctx = (?init # states_out x) @ [reasoning_failed env ?init e]"
      using x Inl by (simp add: reasoning_states_def)
    show ?thesis
      unfolding st using t Inl x q0
      by (simp add: reasoning_run_def reasoning_failed_fields)
  next
    case (Inr r)
    have sh: "states_out x \<noteq> []" "last (states_out x) = r"
      using exec_shape [OF ex] Inr by simp_all
    have st: "reasoning_states env wid q ctx = ?init # states_out x"
      using x Inr by (simp add: reasoning_states_def)
    show ?thesis
      unfolding st using t Inr x q0 sh
      by (auto simp: reasoning_run_def)
  qed
qed

section \<open>Properties of the agents\<close>

subsection \<open>The contradiction scan on node dicts\<close>

lemma scan_patterns_None:
  "scan_patterns contradiction_patterns (py_lower a) (py_lower b) = None \<longleftrightarrow>
   \<not> spec_contradicts a b"
  by (simp add: contradiction_patterns_def spec_contradicts_def)

lemma scan_patterns_Some:
  "scan_patterns ps a b = Some c \<Longrightarrow> c_type c = ''direct_contradiction'' \<and> c_severity c = ''high''"
  by (induction ps a b rule: scan_patterns.induct) (auto split: if_splits)

lemma scan_existing_typed:
  "\<exists>cs. scan_existing (PyNode n) (map PyNode es) acc = Inr (acc @ cs)
        \<and> map (\<lambda>c. (node1 c, node2 c)) cs =
            [(n_id n, n_id e). e \<leftarrow> es, spec_contradicts (n_content n) (n_content e)]
        \<and> (\<forall>c \<in> set cs. ce_type c = ''direct_contradiction'' \<and> ce_severity c = ''high'')"
proof (induction es arbitrary: acc)
  case Nil
  then show ?case by simp
next
  case (Cons e es)
  show ?case
  proof (cases "scan_patterns contradiction_patterns (py_lower (n_content n)) (py_lower (n_content e))")
    case None
    then have no: "\<not> spec_contradicts (n_content n) (n_content e)"
      by (simp add: scan_patterns_None)
    from Cons.IH [of acc] None no show ?thesis
      by (simp add: check_contradiction_def)
  next
    case (Some c)
    then have yes: "spec_contradicts (n_content n) (n_content e)"
      using scan_patterns_None [of "n_content n" "n_content e"] by simp
    let ?entry = "\<lparr> node1 = n_id n, node2 = n_id e, ce_type = c_type c,
                     ce_description = c_description c, ce_severity = c_severity c \<rparr>"
    obtain cs where cs: "scan_existing (PyNode n) (map PyNode es) (acc @ [?entry]) = Inr ((acc @ [?entry]) @ cs)"
        "map (\<lambda>c. (node1 c, node2 c)) cs =
            [(n_id n, n_id e). e \<leftarrow> es, spec_contradicts (n_content n) (n_content e)]"
        "\<forall>c \<in> set cs. ce_type c = ''direct_contradiction'' \<and> ce_severity c = ''high''"
      using Cons.IH [of "acc @ [?entry]"] by blast
    have "scan_existing (PyNode n) (map PyNode (e # es)) acc = Inr (acc @ (?entry # cs))"
      using cs(1) Some by (simp add: check_contradiction_def)
    moreover have "map (\<lambda>c. (node1 c, node2 c)) (?entry # cs) =
            [(n_id n, n_id e). e \<leftarrow> (e # es), spec_contradicts (n_content n) (n_content e)]"
      using cs(2) yes by simp
    moreover have "\<forall>c \<in> set (?entry # cs). ce_type c = ''direct_contradiction'' \<and> ce_severity c = ''high''"
      using cs(3) scan_patterns_Some [OF Some] by simp
    ultimately show ?thesis by blast
  qed
qed

lemma scan_nodes_typed:
  assumes g: "get_list (g_nodes G) = map PyNode es"
  shows "\<exists>cs. scan_nodes (map PyNode ns) G acc = Inr (acc @ cs)
        \<and> map (\<lambda>c. (node1 c, node2 c)) cs = spec_recorded ns es
        \<and> (\<forall>c \<in> set cs. ce_type c = ''direct_contradiction'' \<and> ce_severity c = ''high'')"
proof (induction ns arbitrary: acc)
  case Nil
  then show ?case by (simp add: spec_recorded_def)
next
  case (Cons n ns)
  obtain cs1 where cs1: "scan_existing (PyNode n) (map PyNode es) acc = Inr (acc @ cs1)"
      "map (\<lambda>c. (node1 c, node2 c)) cs1 =
            [(n_id n, n_id e). e \<leftarrow> es, spec_contradicts (n_content n) (n_content e)]"
      "\<forall>c \<in> set cs1. ce_type c = ''direct_contradiction'' \<and> ce_severity c = ''high''"
    using scan_existing_typed [of n es acc] by blast
  obtain cs2 where cs2: "scan_nodes (map PyNode ns) G (acc @ cs1) = Inr ((acc @ cs1) @ cs2)"
      "map (\<lambda>c. (node1 c, node2 c)) cs2 = spec_recorded ns es"
      "\<forall>c \<in> set cs2. ce_type c = ''direct_contradiction'' \<and> ce_severity c = ''high''"
    using Cons.IH [of "acc @ cs1"] by blast
  have "scan_nodes (map PyNode (n # ns)) G acc = Inr (acc @ (cs1 @ cs2))"
    using cs1(1) cs2(1) g by simp
  moreover have "map (\<lambda>c. (node1 c, node2 c)) (cs1 @ cs2) = spec_recorded (n # ns) es"
    using cs1(2) cs2(2) by (simp add: spec_recorded_def)
  moreover have "\<forall>c \<in> set (cs1 @ cs2). ce_type c = ''direct_contradiction'' \<and> ce_severity c = ''high''"
    using cs1(3) cs2(3) by auto
  ultimately show ?case by blast
qed

lemma detect_typed:
  "\<exists>a. detect_contradictions (map PyNode ns)
           \<lparr> g_nodes = Some (map PyNode es), g_relationships = rels, g_similar_nodes = sim \<rparr> = Inr a
       \<and> conflicting_nodes a = map fst (spec_recorded ns es)"
proof -
  let ?G = "\<lparr> g_nodes = Some (map PyNode es), g_relationships = rels, g_similar_nodes = sim \<rparr>"
  obtain cs where cs: "scan_nodes (map PyNode ns) ?G [] = Inr ([] @ cs)"
      "map (\<lambda>c. (node1 c, node2 c)) cs = spec_recorded ns es"
    using scan_nodes_typed [of ?G es ns "[]"] by (auto simp: get_list_def)
  have n1: "map node1 cs = map fst (spec_recorded ns es)"
    using arg_cong [OF cs(2), of "map fst"] by (simp add: comp_def)
  show ?thesis
    using cs(1) n1 by (simp add: detect_contradictions_def Let_def)
qed

lemma py_max_str_all_high:
  "\<forall>x \<in> set xs. x = ''high'' \<Longrightarrow> py_max_str xs ''low'' = (if xs = [] then ''low'' else ''high'')"
proof (cases xs)
  case Nil
  then show ?thesis by simp
next
  case (Cons a ys)
  assume all: "\<forall>x \<in> set xs. x = ''high''"
  have "\<forall>y \<in> set ys. y = ''high'' \<Longrightarrow> fold (\<lambda>y m. if str_less m y then y else m) ys ''high'' = ''high''"
    by (induction ys) simp_all
  with all Cons show ?thesis by simp
qed

lemma spec_max_severity_all_high:
  "\<forall>x \<in> set xs. x = ''high'' \<Longrightarrow> spec_max_severity xs = (if xs = [] then ''low'' else ''high'')"
proof -
  have f: "\<And>m. \<forall>x \<in> set xs. x = ''high'' \<Longrightarrow> m = ''low'' \<or> m = ''high'' \<Longrightarrow>
     fold (\<lambda>x m. if severity_rank m < severity_rank x then x else m) xs m =
       (if xs = [] then m else ''high'')"
    by (induction xs) (auto simp: severity_rank_def)
  assume "\<forall>x \<in> set xs. x = ''high''"
  from f [OF this, of "''low''"] show ?thesis
    by (simp add: spec_max_severity_def)
qed

lemma demo_duplicates:
  "map fst (spec_recorded (combine_search_results demo_conflicts [])
                          (combine_search_results demo_conflicts [])) = [''a'', ''a'', ''b'', ''b'']"
  by code_simp

subsection \<open>The merge of the search results\<close>

lemma combine_vector_map_of:
  "map_of (combine_vector vs acc) k =
     (case map_of acc k of
        Some v \<Rightarrow> Some v
      | None \<Rightarrow> map_option vector_node (find (\<lambda>r. vr_id r = k) vs))"
  by (induction vs arbitrary: acc) (auto simp: Let_def map_of_append split: option.splits)

lemma combine_graph_map_of:
  "map_of (combine_graph gs acc) k =
     (case map_of acc k of
        Some v \<Rightarrow> Some v
      | None \<Rightarrow> if k = [] then None
                else map_option (graph_node k) (find (\<lambda>r. gn_id (gr_node r) = Some k) gs))"
  by (induction gs arbitrary: acc) (auto simp: map_of_append split: option.splits)

lemma combine_vector_keys:
  "distinct (map fst acc) \<Longrightarrow> \<forall>(k, nd) \<in> set acc. n_id nd = k \<Longrightarrow>
   distinct (map fst (combine_vector vs acc)) \<and>
   (\<forall>(k, nd) \<in> set (combine_vector vs acc). n_id nd = k) \<and>
   (\<exists>rest. combine_vector vs acc = acc @ rest)"
proof (induction vs arbitrary: acc)
  case Nil
  then show ?case by simp
next
  case (Cons r vs)
  show ?case
  proof (cases "map_of acc (vr_id r)")
    case None
    then have "vr_id r \<notin> fst ` set acc" by (simp add: map_of_eq_None_iff)
    with Cons.prems have "distinct (map fst (acc @ [(vr_id r, vector_node r)]))"
      "\<forall>(k, nd) \<in> set (acc @ [(vr_id r, vector_node r)]). n_id nd = k"
      by (auto simp: vector_node_def)
    from Cons.IH [OF this] None show ?thesis by (auto simp: Let_def)
  next
    case (Some v)
    with Cons.IH [OF Cons.prems] show ?thesis by (simp add: Let_def)
  qed
qed

lemma combine_graph_keys:
  "distinct (map fst acc) \<Longrightarrow> \<forall>(k, nd) \<in> set acc. n_id nd = k \<Longrightarrow>
   distinct (map fst (combine_graph gs acc)) \<and>
   (\<forall>(k, nd) \<in> set (combine_graph gs acc). n_id nd = k) \<and>
   (\<exists>rest. combine_graph gs acc = acc @ rest)"
proof (induction gs arbitrary: acc)
  case Nil
  then show ?case by simp
next
  case (Cons r gs)
  show ?case
  proof (cases "\<exists>i. gn_id (gr_node r) = Some i \<and> i \<noteq> [] \<and> map_of acc i = None")
    case True
    then obtain i where i: "gn_id (gr_node r) = Some i" "i \<noteq> []" "map_of acc i = None" by blast
    then have "i \<notin> fst ` set acc" by (simp add: map_of_eq_None_iff)
    with Cons.prems have "distinct (map fst (acc @ [(i, graph_node i r)]))"
      "\<forall>(k, nd) \<in> set (acc @ [(i, graph_node i r)]). n_id nd = k"
      by (auto simp: graph_node_def)
    from Cons.IH [OF this] i show ?thesis by auto
  next
    case False
    then have "combine_graph (r # gs) acc = combine_graph gs acc"
      by (auto split: option.splits)
    with Cons.IH [OF Cons.prems] show ?thesis by simp
  qed
qed

subsection \<open>The covered terms\<close>

lemma cover_nodes_eq:
  "cover_nodes ns Q acc = acc \<union> (Q \<inter> spec_node_terms ns)"
  by (induction ns arbitrary: acc) (auto simp: spec_node_terms_def Let_def)

section \<open>The claims\<close>

subsection \<open>Failure of a step\<close>

text \<open>
  C1, as amended. Whenever a step of an ingestion or reasoning run raises an exception,
  the run wrapper catches it and returns the run's initial state (the state built before
  the first step, without the updates of the steps that had completed) with
  \<open>status = failed\<close>, the exception's description in \<open>error\<close> and \<open>end_time\<close> set. No
  step is invoked twice, and the step that raised is the last one invoked: every step
  before it returned, and it raised on the last-known state. Every run has an execution.
\<close>

theorem failed_run_returns_marked_initial_state:
  "(\<exists>x. knowledge_execution kenv wid c md src = Some x)
   \<and> (knowledge_execution kenv wid c md src = Some x \<and> outcome x = Inl e \<longrightarrow>
        knowledge_run kenv wid c md src =
           Some ((knowledge_initial_state kenv wid c md src)
                   \<lparr> status := ''failed'', error := Some (exn_str e),
                     end_time := Some (now_end kenv) \<rparr>)
         \<and> distinct (steps_run x)
         \<and> length (steps_run x) = Suc (length (states_out x))
         \<and> (\<exists>step. map_of (nodes (knowledge_build_workflow kenv)) (last (steps_run x)) = Some step
                \<and> step (last_known (knowledge_initial_state kenv wid c md src) x) = Inl e))
   \<and> (\<exists>y. reasoning_execution renv rid q ctx = Some y)
   \<and> (reasoning_execution renv rid q ctx = Some y \<and> outcome y = Inl e' \<longrightarrow>
        reasoning_run renv rid q ctx =
           Some ((reasoning_initial_state renv rid q ctx)
                   \<lparr> status := ''failed'', error := Some (exn_str e'),
                     end_time := Some (r_now_end renv) \<rparr>)
         \<and> distinct (steps_run y)
         \<and> length (steps_run y) = Suc (length (states_out y))
         \<and> (\<exists>step. map_of (nodes (reasoning_build_workflow renv)) (last (steps_run y)) = Some step
                \<and> step (last_known (reasoning_initial_state renv rid q ctx) y) = Inl e'))"
  using knowledge_execution_total [of kenv wid c md src]
    reasoning_execution_total [of renv rid q ctx]
    knowledge_failure [of kenv wid c md src x e]
    reasoning_failure [of renv rid q ctx y e']
  by blast

theorem failed_run_returns_marked_initial_state_witness:
  "knowledge_execution demo_env ''w1'' demo_content [] None =
     Some (the (knowledge_execution demo_env ''w1'' demo_content [] None))
   \<and> outcome (the (knowledge_execution demo_env ''w1'' demo_content [] None)) =
       Inl (Exn ''TypeError'' ''string indices must be integers'')
   \<and> reasoning_execution (failing_renv []) ''r1'' ''Is it so?'' [] =
       Some (the (reasoning_execution (failing_renv []) ''r1'' ''Is it so?'' []))
   \<and> outcome (the (reasoning_execution (failing_renv []) ''r1'' ''Is it so?'' [])) =
       Inl (Exn ''ServiceUnavailable'' ''graph store down'')
   \<and> knowledge_run demo_env ''w1'' demo_content [] None =
       Some ((knowledge_initial_state demo_env ''w1'' demo_content [] None)
               \<lparr> status := ''failed'', error := Some ''string indices must be integers'',
                 end_time := Some (now_end demo_env) \<rparr>)
   \<and> reasoning_run (failing_renv []) ''r1'' ''Is it so?'' [] =
       Some ((reasoning_initial_state (failing_renv []) ''r1'' ''Is it so?'' [])
               \<lparr> status := ''failed'', error := Some ''graph store down'',
                 end_time := Some (r_now_end (failing_renv [])) \<rparr>)
   \<and> distinct (steps_run (the (knowledge_execution demo_env ''w1'' demo_content [] None)))
   \<and> distinct (steps_run (the (reasoning_execution (failing_renv []) ''r1'' ''Is it so?'' [])))"
proof -
  have k: "knowledge_execution demo_env ''w1'' demo_content [] None =
       Some (the (knowledge_execution demo_env ''w1'' demo_content [] None))
     \<and> outcome (the (knowledge_execution demo_env ''w1'' demo_content [] None)) =
       Inl (Exn ''TypeError'' ''string indices must be integers'')"
    by code_simp
  have r: "reasoning_execution (failing_renv []) ''r1'' ''Is it so?'' [] =
       Some (the (reasoning_execution (failing_renv []) ''r1'' ''Is it so?'' []))
     \<and> outcome (the (reasoning_execution (failing_renv []) ''r1'' ''Is it so?'' [])) =
       Inl (Exn ''ServiceUnavailable'' ''graph store down'')"
    by code_simp
  from k r
    failed_run_returns_marked_initial_state
      [of demo_env "''w1''" demo_content "[]" None
          "the (knowledge_execution demo_env ''w1'' demo_content [] None)"
          "Exn ''TypeError'' ''string indices must be integers''"
          "failing_renv []" "''r1''" "''Is it so?''" "[]"
          "the (reasoning_execution (failing_renv []) ''r1'' ''Is it so?'' [])"
          "Exn ''ServiceUnavailable'' ''graph store down''"]
  show ?thesis by simp
qed

text \<open>
  Against the claim as first stated, that the wrapper marks and returns the last-known
  state: when the graph store raises during retrieval, the last-known state is the output
  of \<open>analyze_query\<close>, and the state returned is not that state marked as failed; its
  \<open>current_step\<close> is still \<open>initialized\<close>.
\<close>

theorem last_known_state_not_returned:
  "map_option outcome (reasoning_execution (failing_renv []) ''r1'' ''Is it so?'' []) =
     Some (Inl (Exn ''ServiceUnavailable'' ''graph store down''))
   \<and> map_option steps_run (reasoning_execution (failing_renv []) ''r1'' ''Is it so?'' []) =
     Some [''analyze_query'', ''retrieve_knowledge'']
   \<and> current_step (last_known (reasoning_initial_state (failing_renv []) ''r1'' ''Is it so?'' [])
        (the (reasoning_execution (failing_renv []) ''r1'' ''Is it so?'' []))) = ''query_analyzed''
   \<and> map_option current_step (reasoning_run (failing_renv []) ''r1'' ''Is it so?'' []) =
     Some ''initialized''
   \<and> reasoning_run (failing_renv []) ''r1'' ''Is it so?'' [] \<noteq>
     Some (reasoning_failed (failing_renv [])
       (last_known (reasoning_initial_state (failing_renv []) ''r1'' ''Is it so?'' [])
          (the (reasoning_execution (failing_renv []) ''r1'' ''Is it so?'' [])))
       (Exn ''ServiceUnavailable'' ''graph store down''))"
  by code_simp

subsection \<open>Status and end time\<close>

text \<open>
  C2. For every ingestion and reasoning run, take the states that the run produces, in
  order: the initial state, the output of every step that returned and, if a step
  raised, the state that the handler returns (its three assignments are one transition).
  In each of them \<open>end_time\<close> is set iff \<open>status\<close> is not running; from one state to
  the next the status stays as it is or goes from running to completed or from running to
  failed, so it is never reversed; every state before the last is running; and the last
  one is the state that the run returns.
\<close>

theorem status_discipline:
  "(\<forall>s \<in> set (knowledge_states kenv wid c md src). end_time_iff_not_running s)
   \<and> successively status_transition (knowledge_states kenv wid c md src)
   \<and> (\<forall>s \<in> set (butlast (knowledge_states kenv wid c md src)). status s = ''running'')
   \<and> hd (knowledge_states kenv wid c md src) = knowledge_initial_state kenv wid c md src
   \<and> knowledge_run kenv wid c md src = Some (last (knowledge_states kenv wid c md src))
   \<and> (\<forall>s \<in> set (reasoning_states renv rid q ctx). end_time_iff_not_running s)
   \<and> successively status_transition (reasoning_states renv rid q ctx)
   \<and> (\<forall>s \<in> set (butlast (reasoning_states renv rid q ctx)). status s = ''running'')
   \<and> hd (reasoning_states renv rid q ctx) = reasoning_initial_state renv rid q ctx
   \<and> reasoning_run renv rid q ctx = Some (last (reasoning_states renv rid q ctx))"
  using knowledge_states_running [of kenv wid c md src]
    reasoning_states_running [of renv rid q ctx]
    discipline_from_running [of "knowledge_states kenv wid c md src"]
    discipline_from_running [of "reasoning_states renv rid q ctx"]
  by blast

theorem status_discipline_witness:
  "map status (knowledge_states demo_env ''w1'' demo_content [] None) =
     [''running'', ''running'', ''running'', ''running'', ''running'', ''running'', ''failed'']
   \<and> map end_time (knowledge_states demo_env ''w1'' demo_content [] None) =
     [None, None, None, None, None, None, Some ''2024-01-01T00:00:09'']
   \<and> map status (reasoning_states (demo_renv demo_conflicts []) ''r1'' ''Is it so?'' []) =
     [''running'', ''running'', ''running'', ''running'', ''completed'']
   \<and> successively status_transition (knowledge_states demo_env ''w1'' demo_content [] None)
   \<and> successively status_transition
        (reasoning_states (demo_renv demo_conflicts []) ''r1'' ''Is it so?'' [])
   \<and> list_all end_time_iff_not_running (knowledge_states demo_env ''w1'' demo_content [] None)
   \<and> list_all end_time_iff_not_running
        (reasoning_states (demo_renv demo_conflicts []) ''r1'' ''Is it so?'' [])"
proof -
  have a: "map status (knowledge_states demo_env ''w1'' demo_content [] None) =
     [''running'', ''running'', ''running'', ''running'', ''running'', ''running'', ''failed'']
   \<and> map end_time (knowledge_states demo_env ''w1'' demo_content [] None) =
     [None, None, None, None, None, None, Some ''2024-01-01T00:00:09'']
   \<and> map status (reasoning_states (demo_renv demo_conflicts []) ''r1'' ''Is it so?'' []) =
     [''running'', ''running'', ''running'', ''running'', ''completed'']"
    by code_simp
  from a
    status_discipline [of demo_env "''w1''" demo_content "[]" None
        "demo_renv demo_conflicts []" "''r1''" "''Is it so?''" "[]"]
  show ?thesis by (simp add: list_all_iff)
qed

subsection \<open>Rejected content\<close>

text \<open>
  C3, as amended. For every ingestion run whose content fails the validation checks, the
  run terminates normally, without raising, at the reject terminal: \<open>validate_content\<close>
  is the only step that runs (\<open>finalize_ingestion\<close> does not), and the state returned
  is the output of that step, in which \<open>status\<close> is still running, \<open>end_time\<close> and
  \<open>error\<close> are unset and no node is created.
\<close>

theorem rejected_run_stops_after_validation:
  assumes "\<not> is_valid (validate_content (knowledge_initial_state env wid c md src))"
  shows "knowledge_execution env wid c md src =
           Some \<lparr> steps_run = [''validate_content''],
                  states_out =
                    [(knowledge_initial_state env wid c md src)
                       \<lparr> current_step := ''validation_complete'',
                         validation_result :=
                           Some (validate_content (knowledge_initial_state env wid c md src)) \<rparr>],
                  outcome =
                    Inr ((knowledge_initial_state env wid c md src)
                       \<lparr> current_step := ''validation_complete'',
                         validation_result :=
                           Some (validate_content (knowledge_initial_state env wid c md src)) \<rparr>) \<rparr>
         \<and> (\<exists>r. knowledge_run env wid c md src = Some r \<and> status r = ''running'' \<and>
                  end_time r = None \<and> error r = None \<and> nodes_created r = [] \<and>
                  current_step r = ''validation_complete'' \<and>
                  validation_result r =
                    Some (validate_content (knowledge_initial_state env wid c md src)))"
proof -
  have ex: "knowledge_execution env wid c md src =
           Some \<lparr> steps_run = [''validate_content''],
                  states_out =
                    [(knowledge_initial_state env wid c md src)
                       \<lparr> current_step := ''validation_complete'',
                         validation_result :=
                           Some (validate_content (knowledge_initial_state env wid c md src)) \<rparr>],
                  outcome =
                    Inr ((knowledge_initial_state env wid c md src)
                       \<lparr> current_step := ''validation_complete'',
                         validation_result :=
                           Some (validate_content (knowledge_initial_state env wid c md src)) \<rparr>) \<rparr>"
    unfolding knowledge_execution_exec knowledge_unfold(7)
    using assms by (simp add: wf_validate_content_def should_process_def Let_def)
  then show ?thesis
    by (simp add: knowledge_run_def) (simp add: knowledge_initial_state_def)
qed

theorem rejected_run_stops_after_validation_witness:
  "\<not> is_valid (validate_content (knowledge_initial_state demo_env ''w1'' ''Why so?'' [] None))
   \<and> map_option steps_run (knowledge_execution demo_env ''w1'' ''Why so?'' [] None) =
       Some [''validate_content'']
   \<and> map_option status (knowledge_run demo_env ''w1'' ''Why so?'' [] None) = Some ''running''
   \<and> map_option nodes_created (knowledge_run demo_env ''w1'' ''Why so?'' [] None) = Some []"
proof -
  have h: "\<not> is_valid (validate_content (knowledge_initial_state demo_env ''w1'' ''Why so?'' [] None))"
    by code_simp
  from h rejected_run_stops_after_validation [OF h] show ?thesis by auto
qed

text \<open>
  Against the claim as first stated, that the terminal state of a rejected run has
  status completed: for the content \<open>Why so?\<close> the run returns a state whose status is
  running and whose \<open>end_time\<close> is unset.
\<close>

theorem rejected_run_still_running:
  "\<not> is_valid (validate_content (knowledge_initial_state demo_env ''w1'' ''Why so?'' [] None))
   \<and> map_option status (knowledge_run demo_env ''w1'' ''Why so?'' [] None) = Some ''running''
   \<and> map_option status (knowledge_run demo_env ''w1'' ''Why so?'' [] None) \<noteq> Some ''completed''
   \<and> map_option end_time (knowledge_run demo_env ''w1'' ''Why so?'' [] None) = Some None"
  by code_simp

subsection \<open>Content validation\<close>

text \<open>
  C4. For every content, \<open>validate_content\<close> records the issue "too short" exactly when
  the trimmed content has fewer than 10 characters and the issue "too few words" exactly
  when it has fewer than 5 words, and nothing else; content with more question marks than
  periods only adds a suggestion; the confidence is max(0.1, 1.0 - 0.2 * issue count);
  the content is valid iff there is no issue. In particular, content whose trimmed length
  is below 10 is invalid with confidence at most 0.8.
\<close>

theorem validate_content_contract:
  "issues (validate_content state) =
     (if length (py_strip (content state)) < 10 then [''Content too short''] else []) @
     (if length (py_split (content state)) < 5 then [''Content has too few words''] else [])
   \<and> suggestions (validate_content state) =
     (if length (py_strip (content state)) < 10
      then [''Provide more detailed content''] else []) @
     (if length (py_split (content state)) < 5
      then [''Expand on the topic with more information''] else []) @
     (if py_count (content state) (CHR ''?'') > py_count (content state) (CHR ''.'')
      then [''Content appears to be mostly questions - consider adding explanatory text'']
      else [])
   \<and> v_confidence (validate_content state) =
       max 0.1 (1.0 - 0.2 * real (length (issues (validate_content state))))
   \<and> (is_valid (validate_content state) \<longleftrightarrow> length (issues (validate_content state)) = 0)
   \<and> (length (py_strip (content state)) < 10 \<longrightarrow>
        \<not> is_valid (validate_content state) \<and> v_confidence (validate_content state) \<le> 0.8)"
  by (simp add: validate_content_def Let_def)

theorem validate_content_contract_witness:
  "length (py_strip (content (knowledge_initial_state demo_env ''w1'' ''Why so?'' [] None))) < 10
   \<and> \<not> is_valid (validate_content (knowledge_initial_state demo_env ''w1'' ''Why so?'' [] None))
   \<and> v_confidence (validate_content (knowledge_initial_state demo_env ''w1'' ''Why so?'' [] None))
       \<le> 0.8
   \<and> suggestions (validate_content (knowledge_initial_state demo_env ''w1'' ''Why so?'' [] None)) =
       [''Provide more detailed content'', ''Expand on the topic with more information'',
        ''Content appears to be mostly questions - consider adding explanatory text'']"
  using validate_content_contract [of "knowledge_initial_state demo_env ''w1'' ''Why so?'' [] None"]
  by (simp add: knowledge_initial_state_def py_strip_def py_isspace_def py_split_def
        py_count_def)

subsection \<open>Contradiction detection\<close>

text \<open>
  C5. For every pair of lists of nodes given to \<open>detect_contradictions\<close>, the function
  returns without raising, and a contradiction is recorded for a pair (new, existing),
  in the order of the two loops, iff for one of the pairs (is, is not), (true, false),
  (yes, no), (correct, incorrect) the positive phrase is in the lower-cased content of the
  first node and the negative phrase in that of the second. Every recorded entry is a
  \<open>direct_contradiction\<close> of severity high. The aggregate severity is the greatest
  recorded severity under low < medium < high, and low when nothing is recorded. The
  branch predicate of the ingestion graph after \<open>detect_contradictions\<close> leads to
  \<open>store_embeddings\<close> iff no contradiction was found.
\<close>

theorem detect_contradictions_contract:
  "\<exists>cs. scan_nodes (map PyNode ns)
            \<lparr> g_nodes = Some (map PyNode es), g_relationships = rels, g_similar_nodes = sim \<rparr> []
          = Inr cs
      \<and> map (\<lambda>c. (node1 c, node2 c)) cs = spec_recorded ns es
      \<and> (\<forall>c \<in> set cs. ce_type c = ''direct_contradiction'' \<and> ce_severity c = ''high'')
      \<and> detect_contradictions (map PyNode ns)
            \<lparr> g_nodes = Some (map PyNode es), g_relationships = rels, g_similar_nodes = sim \<rparr>
          = Inr \<lparr> has_contradiction = (spec_recorded ns es \<noteq> []),
                  conflicting_nodes = map fst (spec_recorded ns es),
                  severity = spec_max_severity (map ce_severity cs),
                  resolution_suggestions = generate_resolution_suggestions cs \<rparr>
      \<and> spec_max_severity (map ce_severity cs) =
          (if spec_recorded ns es = [] then ''low'' else ''high'')
      \<and> (successor (ConditionalEdges should_store
                       [(''store'', ''store_embeddings''), (''review'', END)])
            (state \<lparr> contradiction_result := Some a \<rparr>) = Some ''store_embeddings''
          \<longleftrightarrow> \<not> has_contradiction a)
      \<and> map_of (edges (knowledge_build_workflow env)) ''detect_contradictions'' =
          Some (ConditionalEdges should_store
                  [(''store'', ''store_embeddings''), (''review'', END)])"
proof -
  let ?G = "\<lparr> g_nodes = Some (map PyNode es), g_relationships = rels, g_similar_nodes = sim \<rparr>"
  obtain cs where cs: "scan_nodes (map PyNode ns) ?G [] = Inr ([] @ cs)"
      "map (\<lambda>c. (node1 c, node2 c)) cs = spec_recorded ns es"
      "\<forall>c \<in> set cs. ce_type c = ''direct_contradiction'' \<and> ce_severity c = ''high''"
    using scan_nodes_typed [of ?G es ns "[]"] by (auto simp: get_list_def)
  have high: "\<forall>x \<in> set (map ce_severity cs). x = ''high''"
    using cs(3) by simp
  have emp: "(cs = []) = (spec_recorded ns es = [])"
    using cs(2) by (metis map_is_Nil_conv)
  have n1: "map node1 cs = map fst (spec_recorded ns es)"
    using arg_cong [OF cs(2), of "map fst"] by (simp add: comp_def)
  have sev: "spec_max_severity (map ce_severity cs) = (if spec_recorded ns es = [] then ''low'' else ''high'')"
    using spec_max_severity_all_high [OF high] emp by simp
  have pm: "py_max_str (map ce_severity cs) ''low'' = spec_max_severity (map ce_severity cs)"
    using spec_max_severity_all_high [OF high] py_max_str_all_high [OF high] by simp
  have det: "detect_contradictions (map PyNode ns) ?G
          = Inr \<lparr> has_contradiction = (spec_recorded ns es \<noteq> []),
                  conflicting_nodes = map fst (spec_recorded ns es),
                  severity = spec_max_severity (map ce_severity cs),
                  resolution_suggestions = generate_resolution_suggestions cs \<rparr>"
    using cs(1) emp n1 pm by (simp add: detect_contradictions_def Let_def)
  have br: "(successor (ConditionalEdges should_store
                       [(''store'', ''store_embeddings''), (''review'', END)])
            (state \<lparr> contradiction_result := Some a \<rparr>) = Some ''store_embeddings''
          \<longleftrightarrow> \<not> has_contradiction a)"
    by (simp add: should_store_def END_def)
  from cs(1,2,3) det sev br knowledge_edges_lookup(4) [of env] show ?thesis
    by (intro exI [of _ cs]) simp
qed

theorem detect_contradictions_contract_witness:
  "spec_recorded [demo_node ''a'' ''It is not so.'', demo_node ''b'' ''Maybe.'']
                 [demo_node ''c'' ''This is not true.''] = [(''a'', ''c'')]
   \<and> map_sum exn_str severity
        (detect_contradictions
           [PyNode (demo_node ''a'' ''It is not so.''), PyNode (demo_node ''b'' ''Maybe.'')]
           \<lparr> g_nodes = Some [PyNode (demo_node ''c'' ''This is not true.'')],
             g_relationships = None, g_similar_nodes = None \<rparr>) = Inr ''high''
   \<and> map_sum exn_str conflicting_nodes
        (detect_contradictions
           [PyNode (demo_node ''a'' ''It is not so.''), PyNode (demo_node ''b'' ''Maybe.'')]
           \<lparr> g_nodes = Some [PyNode (demo_node ''c'' ''This is not true.'')],
             g_relationships = None, g_similar_nodes = None \<rparr>) = Inr [''a'']
   \<and> map_sum exn_str has_contradiction
        (detect_contradictions
           [PyNode (demo_node ''a'' ''It is not so.''), PyNode (demo_node ''b'' ''Maybe.'')]
           \<lparr> g_nodes = Some [PyNode (demo_node ''c'' ''This is not true.'')],
             g_relationships = None, g_similar_nodes = None \<rparr>) = Inr True
   \<and> should_store
        ((knowledge_initial_state demo_env ''w1'' demo_content [] None)
           \<lparr> contradiction_result :=
               Some \<lparr> has_contradiction = True, conflicting_nodes = [''a''],
                      severity = ''high'', resolution_suggestions = [] \<rparr> \<rparr>) = ''review''"
proof -
  have r: "spec_recorded [demo_node ''a'' ''It is not so.'', demo_node ''b'' ''Maybe.'']
                 [demo_node ''c'' ''This is not true.''] = [(''a'', ''c'')]"
    by code_simp
  have s: "should_store
        ((knowledge_initial_state demo_env ''w1'' demo_content [] None)
           \<lparr> contradiction_result :=
               Some \<lparr> has_contradiction = True, conflicting_nodes = [''a''],
                      severity = ''high'', resolution_suggestions = [] \<rparr> \<rparr>) = ''review''"
    by code_simp
  from detect_contradictions_contract
         [of "[demo_node ''a'' ''It is not so.'', demo_node ''b'' ''Maybe.'']"
             "[demo_node ''c'' ''This is not true.'']" None None]
  obtain cs where
    "detect_contradictions
       (map PyNode [demo_node ''a'' ''It is not so.'', demo_node ''b'' ''Maybe.''])
       \<lparr> g_nodes = Some (map PyNode [demo_node ''c'' ''This is not true.'']),
         g_relationships = None, g_similar_nodes = None \<rparr>
     = Inr \<lparr> has_contradiction =
               (spec_recorded [demo_node ''a'' ''It is not so.'', demo_node ''b'' ''Maybe.'']
                  [demo_node ''c'' ''This is not true.''] \<noteq> []),
             conflicting_nodes =
               map fst (spec_recorded [demo_node ''a'' ''It is not so.'', demo_node ''b'' ''Maybe.'']
                  [demo_node ''c'' ''This is not true.'']),
             severity = spec_max_severity (map ce_severity cs),
             resolution_suggestions = generate_resolution_suggestions cs \<rparr>"
    "spec_max_severity (map ce_severity cs) =
       (if spec_recorded [demo_node ''a'' ''It is not so.'', demo_node ''b'' ''Maybe.'']
             [demo_node ''c'' ''This is not true.''] = [] then ''low'' else ''high'')"
    by blast
  with r s show ?thesis by simp
qed

subsection \<open>Merging the search results\<close>

text \<open>
  C6. For every list of vector results and every list of graph results, the merge builds
  a dict keyed by node id in which the first writer wins: the entry of an id is made from
  the first vector result with that id, and only if there is none, from the first graph
  result with that (non-empty) id; a later result for an id already present never
  replaces the entry. The entries of the vector results come first. The confidence of
  an entry is the score of the result it is made from.
\<close>

theorem merge_first_writer_wins:
  "map_of (combined_dict vs gs) k =
     (case find (\<lambda>r. vr_id r = k) vs of
        Some r \<Rightarrow> Some (vector_node r)
      | None \<Rightarrow> if k = [] then None
                else map_option (graph_node k) (find (\<lambda>r. gn_id (gr_node r) = Some k) gs))
   \<and> distinct (map fst (combined_dict vs gs))
   \<and> map n_id (combine_search_results vs gs) = map fst (combined_dict vs gs)
   \<and> combine_search_results vs gs = map snd (combined_dict vs gs)
   \<and> (\<exists>rest. combined_dict vs gs = combine_vector vs [] @ rest)
   \<and> n_confidence (vector_node v) = vr_score v
   \<and> n_confidence (graph_node k g) = gr_score g"
proof -
  have cv: "distinct (map fst (combine_vector vs []))"
      "\<forall>(k, nd) \<in> set (combine_vector vs []). n_id nd = k"
    using combine_vector_keys [of "[]" vs] by simp_all
  have cg: "distinct (map fst (combined_dict vs gs))"
      "\<forall>(k, nd) \<in> set (combined_dict vs gs). n_id nd = k"
      "\<exists>rest. combined_dict vs gs = combine_vector vs [] @ rest"
    using combine_graph_keys [OF cv, of gs] by (simp_all add: combined_dict_def)
  have ids: "map n_id (combine_search_results vs gs) = map fst (combined_dict vs gs)"
    using cg(2) by (auto simp: combine_search_results_def)
  have m: "map_of (combined_dict vs gs) k =
     (case find (\<lambda>r. vr_id r = k) vs of
        Some r \<Rightarrow> Some (vector_node r)
      | None \<Rightarrow> if k = [] then None
                else map_option (graph_node k) (find (\<lambda>r. gn_id (gr_node r) = Some k) gs))"
    by (simp add: combined_dict_def combine_graph_map_of combine_vector_map_of
          split: option.splits)
  from m cg(1,3) ids show ?thesis
    by (simp add: combine_search_results_def vector_node_def graph_node_def)
qed

theorem merge_first_writer_wins_witness:
  "map_option n_content (map_of (combined_dict demo_hits demo_matches) ''a'') = Some ''first''
   \<and> map_option n_confidence (map_of (combined_dict demo_hits demo_matches) ''a'') = Some 0.9
   \<and> map n_id (combine_search_results demo_hits demo_matches) = [''a'', ''b'', ''c'']
   \<and> map n_confidence (combine_search_results demo_hits demo_matches) = [0.9, 0.4, 0.7]
   \<and> distinct (map fst (combined_dict demo_hits demo_matches))"
proof -
  have e: "map n_id (combine_search_results demo_hits demo_matches) = [''a'', ''b'', ''c'']
         \<and> map n_confidence (combine_search_results demo_hits demo_matches) = [0.9, 0.4, 0.7]"
    by code_simp
  have f: "find (\<lambda>r. vr_id r = ''a'') demo_hits = Some (demo_hit ''a'' ''first'' 0.9)"
    by code_simp
  have g: "n_content (vector_node (demo_hit ''a'' ''first'' 0.9)) = ''first''
         \<and> n_confidence (vector_node (demo_hit ''a'' ''first'' 0.9)) = 0.9"
    by code_simp
  from merge_first_writer_wins [of demo_hits demo_matches "''a''"] e f g
  show ?thesis by simp
qed

subsection \<open>Too many contradictions\<close>

text \<open>
  C7. For every reasoning run in which \<open>analyze_query\<close> and \<open>retrieve_knowledge\<close>
  return and the contradiction check flags more than 2 entries, the branch predicate
  returns stop and the run goes from \<open>check_contradictions\<close> directly to
  \<open>finalize_reasoning\<close>: \<open>generate_reasoning\<close>, \<open>identify_gaps\<close> and
  \<open>formulate_answer\<close> are not invoked. The state returned has no answer, status
  completed and \<open>end_time\<close> set.
\<close>

theorem many_contradictions_skip_reasoning:
  assumes "analyze_query env (reasoning_initial_state env wid q ctx) = Inr s1"
    and "retrieve_knowledge env s1 = Inr s2"
    and "check_contradictions s2 = Inr s3"
    and "length (contradictions_found s3) > 2"
  shows "should_continue_reasoning s3 = ''stop''
     \<and> reasoning_execution env wid q ctx =
         Some \<lparr> steps_run = [''analyze_query'', ''retrieve_knowledge'', ''check_contradictions'',
                             ''finalize_reasoning''],
                states_out = [s1, s2, s3,
                  s3 \<lparr> status := ''completed'', end_time := Some (r_now_end env),
                       current_step := ''completed'' \<rparr>],
                outcome = Inr (s3 \<lparr> status := ''completed'', end_time := Some (r_now_end env),
                                  current_step := ''completed'' \<rparr>) \<rparr>
     \<and> (\<exists>r. reasoning_run env wid q ctx = Some r \<and> answer r = None \<and>
              status r = ''completed'' \<and> end_time r \<noteq> None)"
proof -
  have stop: "should_continue_reasoning s3 = ''stop''"
    using assms(4) by (simp add: should_continue_reasoning_def)
  have ans: "answer s3 = None"
    using analyze_query_frame [OF assms(1)] retrieve_knowledge_frame [OF assms(2)]
      check_contradictions_frame [OF assms(3)]
    by (simp add: reasoning_initial_fields)
  have ex: "reasoning_execution env wid q ctx =
         Some \<lparr> steps_run = [''analyze_query'', ''retrieve_knowledge'', ''check_contradictions'',
                             ''finalize_reasoning''],
                states_out = [s1, s2, s3,
                  s3 \<lparr> status := ''completed'', end_time := Some (r_now_end env),
                       current_step := ''completed'' \<rparr>],
                outcome = Inr (s3 \<lparr> status := ''completed'', end_time := Some (r_now_end env),
                                  current_step := ''completed'' \<rparr>) \<rparr>"
    unfolding reasoning_execution_exec reasoning_unfold
    using assms(1,2,3) stop by (simp add: reasoning_unfold END_def finalize_reasoning_def)
  from stop ex ans show ?thesis
    by (simp add: reasoning_run_def)
qed

theorem many_contradictions_skip_reasoning_witness:
  "analyze_query (demo_renv demo_conflicts [])
       (reasoning_initial_state (demo_renv demo_conflicts []) ''r1'' ''Is it so?'' []) =
     Inr (projr (analyze_query (demo_renv demo_conflicts [])
       (reasoning_initial_state (demo_renv demo_conflicts []) ''r1'' ''Is it so?'' [])))
   \<and> retrieve_knowledge (demo_renv demo_conflicts [])
       (projr (analyze_query (demo_renv demo_conflicts [])
         (reasoning_initial_state (demo_renv demo_conflicts []) ''r1'' ''Is it so?'' []))) =
     Inr (projr (retrieve_knowledge (demo_renv demo_conflicts [])
       (projr (analyze_query (demo_renv demo_conflicts [])
         (reasoning_initial_state (demo_renv demo_conflicts []) ''r1'' ''Is it so?'' [])))))
   \<and> check_contradictions (projr (retrieve_knowledge (demo_renv demo_conflicts [])
       (projr (analyze_query (demo_renv demo_conflicts [])
         (reasoning_initial_state (demo_renv demo_conflicts []) ''r1'' ''Is it so?'' []))))) =
     Inr (projr (check_contradictions (projr (retrieve_knowledge (demo_renv demo_conflicts [])
       (projr (analyze_query (demo_renv demo_conflicts [])
         (reasoning_initial_state (demo_renv demo_conflicts []) ''r1'' ''Is it so?'' [])))))))
   \<and> contradictions_found (projr (check_contradictions (projr (retrieve_knowledge
       (demo_renv demo_conflicts [])
       (projr (analyze_query (demo_renv demo_conflicts [])
         (reasoning_initial_state (demo_renv demo_conflicts []) ''r1'' ''Is it so?'' []))))))) =
     [''a'', ''a'', ''b'', ''b'']
   \<and> map_option steps_run (reasoning_execution (demo_renv demo_conflicts []) ''r1'' ''Is it so?'' []) =
       Some [''analyze_query'', ''retrieve_knowledge'', ''check_contradictions'',
             ''finalize_reasoning'']
   \<and> map_option answer (reasoning_run (demo_renv demo_conflicts []) ''r1'' ''Is it so?'' []) =
       Some None
   \<and> map_option status (reasoning_run (demo_renv demo_conflicts []) ''r1'' ''Is it so?'' []) =
       Some ''completed''"
proof -
  let ?E = "demo_renv demo_conflicts []"
  let ?s1 = "projr (analyze_query ?E (reasoning_initial_state ?E ''r1'' ''Is it so?'' []))"
  let ?s2 = "projr (retrieve_knowledge ?E ?s1)"
  let ?s3 = "projr (check_contradictions ?s2)"
  have h1: "analyze_query ?E (reasoning_initial_state ?E ''r1'' ''Is it so?'' []) = Inr ?s1"
    by code_simp
  have h2: "retrieve_knowledge ?E ?s1 = Inr ?s2"
    by code_simp
  have h3: "check_contradictions ?s2 = Inr ?s3"
    by code_simp
  have h4: "contradictions_found ?s3 = [''a'', ''a'', ''b'', ''b'']"
    by code_simp
  have h5: "length (contradictions_found ?s3) > 2"
    unfolding h4 by simp
  from many_contradictions_skip_reasoning [OF h1 h2 h3 h5] h1 h2 h3 h4
  show ?thesis by auto
qed

subsection \<open>Coverage of the query terms\<close>

text \<open>
  C8. For every query and every list of retrieved nodes, the coverage score of
  \<open>identify_gaps\<close> is the number of query terms that occur among the terms of the
  nodes divided by the number of query terms, and 1.0 when the query has no term. For a
  query with at least one term it is 1.0 when every query term occurs in a node and 0.0
  when none does; it always lies between 0 and 1.
\<close>

theorem coverage_score_contract:
  "coverage_score (identify_gaps iter q ns) =
     (if spec_query_terms q = {} then 1.0
      else real (card (spec_query_terms q \<inter> spec_node_terms ns)) /
           real (card (spec_query_terms q)))
   \<and> (spec_query_terms q \<noteq> {} \<and> spec_query_terms q \<subseteq> spec_node_terms ns \<longrightarrow>
        coverage_score (identify_gaps iter q ns) = 1.0)
   \<and> (spec_query_terms q \<noteq> {} \<and> spec_query_terms q \<inter> spec_node_terms ns = {} \<longrightarrow>
        coverage_score (identify_gaps iter q ns) = 0.0)
   \<and> 0 \<le> coverage_score (identify_gaps iter q ns)
   \<and> coverage_score (identify_gaps iter q ns) \<le> 1"
proof -
  let ?Q = "spec_query_terms q" and ?N = "spec_node_terms ns"
  have fin: "finite ?Q" by (simp add: spec_query_terms_def)
  have eq: "coverage_score (identify_gaps iter q ns) =
     (if ?Q = {} then 1.0 else real (card (?Q \<inter> ?N)) / real (card ?Q))"
    by (simp add: identify_gaps_def Let_def cover_nodes_eq spec_query_terms_def)
  have le: "card (?Q \<inter> ?N) \<le> card ?Q"
    using fin by (simp add: card_mono)
  have pos: "?Q \<noteq> {} \<Longrightarrow> 0 < card ?Q"
    using fin by (simp add: card_gt_0_iff)
  have full: "?Q \<noteq> {} \<and> ?Q \<subseteq> ?N \<longrightarrow> coverage_score (identify_gaps iter q ns) = 1.0"
  proof
    assume a: "?Q \<noteq> {} \<and> ?Q \<subseteq> ?N"
    then have "?Q \<inter> ?N = ?Q" by blast
    with a pos show "coverage_score (identify_gaps iter q ns) = 1.0" by (simp add: eq)
  qed
  have none: "?Q \<noteq> {} \<and> ?Q \<inter> ?N = {} \<longrightarrow> coverage_score (identify_gaps iter q ns) = 0.0"
    by (simp add: eq)
  have range: "0 \<le> coverage_score (identify_gaps iter q ns)"
      "coverage_score (identify_gaps iter q ns) \<le> 1"
    using le pos by (simp_all add: eq divide_le_eq_1)
  from eq full none range show ?thesis by blast
qed

theorem coverage_score_contract_witness:
  "spec_query_terms ''Blue SKY'' \<noteq> {}
   \<and> spec_query_terms ''Blue SKY'' \<subseteq> spec_node_terms [demo_node ''a'' ''The sky is blue today'']
   \<and> coverage_score (identify_gaps (\<lambda>S. []) ''Blue SKY''
        [demo_node ''a'' ''The sky is blue today'']) = 1.0
   \<and> spec_query_terms ''Blue SKY'' \<inter> spec_node_terms [demo_node ''b'' ''Grass grows''] = {}
   \<and> coverage_score (identify_gaps (\<lambda>S. []) ''Blue SKY'' [demo_node ''b'' ''Grass grows'']) = 0.0"
proof -
  have h1: "spec_query_terms ''Blue SKY'' \<noteq> {}
    \<and> spec_query_terms ''Blue SKY'' \<subseteq> spec_node_terms [demo_node ''a'' ''The sky is blue today'']"
    by code_simp
  have h2: "spec_query_terms ''Blue SKY'' \<inter> spec_node_terms [demo_node ''b'' ''Grass grows''] = {}"
    by code_simp
  have c1: "coverage_score (identify_gaps (\<lambda>S. []) ''Blue SKY''
        [demo_node ''a'' ''The sky is blue today'']) = 1.0"
    using h1
      coverage_score_contract [of "\<lambda>S. []" "''Blue SKY''" "[demo_node ''a'' ''The sky is blue today'']"]
    by blast
  have c2: "coverage_score (identify_gaps (\<lambda>S. []) ''Blue SKY'' [demo_node ''b'' ''Grass grows'']) = 0.0"
    using h1 h2
      coverage_score_contract [of "\<lambda>S. []" "''Blue SKY''" "[demo_node ''b'' ''Grass grows'']"]
    by blast
  from h1 h2 c1 c2 show ?thesis by blast
qed

subsection \<open>The flag \<open>embedding_generated\<close>\<close>

text \<open>
  C9. In every state that an ingestion run produces, and in the state that it returns,
  \<open>embedding_generated\<close> is false: the agent's \<open>process_content\<close> sets the flag in
  its own copy of the state, and the workflow step takes only the node ids and the
  embedding tuples from the agent's result.
\<close>

theorem embedding_generated_stays_false:
  "(\<forall>s \<in> set (knowledge_states env wid c md src). \<not> embedding_generated s)
   \<and> (\<exists>r. knowledge_run env wid c md src = Some r \<and> \<not> embedding_generated r)
   \<and> (\<forall>res. process_content env state = Inr res \<longrightarrow>
         embedding_generated (pr_state res) \<and>
         wf_process_content env state =
           Inr (state \<lparr> nodes_created := pr_nodes res,
                        embeddings_data := Some (pr_embeddings res),
                        current_step := ''content_processed'' \<rparr>))"
proof -
  obtain x where x: "knowledge_execution env wid c md src = Some x"
    using knowledge_execution_total by blast
  let ?init = "knowledge_initial_state env wid c md src"
  have ex: "exec (knowledge_build_workflow env) (Suc (Suc (Suc (Suc (Suc (Suc (Suc 0)))))))
       ''validate_content'' ?init = Some x"
    using x unfolding knowledge_execution_exec .
  have inv: "\<forall>t \<in> set (states_out x). \<not> embedding_generated t"
    by (rule exec_invariant [where P = "\<lambda>s. \<not> embedding_generated s", OF _ ex])
       (auto dest: knowledge_step_embedding simp: knowledge_initial_fields)
  have a: "\<forall>s \<in> set (knowledge_states env wid c md src). \<not> embedding_generated s"
    using inv x
    by (cases "outcome x")
       (auto simp: knowledge_states_def knowledge_initial_fields knowledge_failed_fields)
  have b: "\<exists>r. knowledge_run env wid c md src = Some r \<and> \<not> embedding_generated r"
  proof (cases "outcome x")
    case (Inl e)
    then show ?thesis
      using x by (simp add: knowledge_run_def knowledge_failed_fields knowledge_initial_fields)
  next
    case (Inr r)
    then have "r \<in> set (states_out x)"
      using exec_shape [OF ex] by (auto simp: last_in_set)
    with inv Inr x show ?thesis by (simp add: knowledge_run_def)
  qed
  have c: "\<forall>res. process_content env state = Inr res \<longrightarrow>
         embedding_generated (pr_state res) \<and>
         wf_process_content env state =
           Inr (state \<lparr> nodes_created := pr_nodes res,
                        embeddings_data := Some (pr_embeddings res),
                        current_step := ''content_processed'' \<rparr>)"
    by (auto simp: process_content_def wf_process_content_def Let_def split: sum.splits)
  from a b c show ?thesis by blast
qed

theorem embedding_generated_stays_false_witness:
  "process_content demo_env (knowledge_initial_state demo_env ''w1'' demo_content [] None) =
     Inr (projr (process_content demo_env
            (knowledge_initial_state demo_env ''w1'' demo_content [] None)))
   \<and> embedding_generated (pr_state (projr (process_content demo_env
        (knowledge_initial_state demo_env ''w1'' demo_content [] None))))
   \<and> map embedding_generated (knowledge_states demo_env ''w1'' demo_content [] None) =
       [False, False, False, False, False, False, False]
   \<and> map_option status (knowledge_run demo_env_no_chunks ''w1'' demo_content [] None) =
       Some ''completed''
   \<and> map_option embedding_generated
        (knowledge_run demo_env_no_chunks ''w1'' demo_content [] None) = Some False
   \<and> list_all (\<lambda>s. \<not> embedding_generated s)
        (knowledge_states demo_env_no_chunks ''w1'' demo_content [] None)"
proof -
  have h: "process_content demo_env (knowledge_initial_state demo_env ''w1'' demo_content [] None) =
     Inr (projr (process_content demo_env
            (knowledge_initial_state demo_env ''w1'' demo_content [] None)))"
    by code_simp
  have a: "map embedding_generated (knowledge_states demo_env ''w1'' demo_content [] None) =
       [False, False, False, False, False, False, False]
     \<and> map_option status (knowledge_run demo_env_no_chunks ''w1'' demo_content [] None) =
       Some ''completed''"
    by code_simp
  from h a
    embedding_generated_stays_false
      [where env = demo_env and wid = "''w1''" and c = demo_content and md = "[]"
         and src = None
         and state = "knowledge_initial_state demo_env ''w1'' demo_content [] None"]
    embedding_generated_stays_false
      [where env = demo_env_no_chunks and wid = "''w1''" and c = demo_content and md = "[]"
         and src = None
         and state = "knowledge_initial_state demo_env ''w1'' demo_content [] None"]
  show ?thesis by (auto simp: list_all_iff)
qed

subsection \<open>What the conflicting nodes count\<close>

text \<open>
  C10. The list \<open>conflicting_nodes\<close> that \<open>detect_contradictions\<close> returns has one
  entry for every recorded pair, the id of the new-side node of the pair; so have the
  \<open>contradictions_found\<close> of the reasoning state, and the branch predicate stops iff
  more than 2 pairs are recorded. An id occurs once for every node that its node
  contradicts: two retrieved nodes that contradict themselves and each other give four
  entries.
\<close>

theorem conflicting_nodes_count_pairs:
  "(\<exists>a. detect_contradictions (map PyNode ns)
           \<lparr> g_nodes = Some (map PyNode es), g_relationships = rels, g_similar_nodes = sim \<rparr> = Inr a
        \<and> conflicting_nodes a = map fst (spec_recorded ns es)
        \<and> length (conflicting_nodes a) = length (spec_recorded ns es))
   \<and> (\<exists>state'. check_contradictions state = Inr state'
        \<and> contradictions_found state' =
            map fst (spec_recorded (retrieved_nodes state) (retrieved_nodes state))
        \<and> (should_continue_reasoning state' = ''stop'' \<longleftrightarrow>
            length (spec_recorded (retrieved_nodes state) (retrieved_nodes state)) > 2))
   \<and> map fst (spec_recorded (combine_search_results demo_conflicts [])
                 (combine_search_results demo_conflicts [])) = [''a'', ''a'', ''b'', ''b'']"
proof -
  obtain a where a: "detect_contradictions (map PyNode ns)
           \<lparr> g_nodes = Some (map PyNode es), g_relationships = rels, g_similar_nodes = sim \<rparr> = Inr a"
       "conflicting_nodes a = map fst (spec_recorded ns es)"
    using detect_typed [of ns es rels sim] by blast
  obtain b where b: "detect_contradictions (map PyNode (retrieved_nodes state))
           \<lparr> g_nodes = Some (map PyNode (retrieved_nodes state)), g_relationships = None,
             g_similar_nodes = None \<rparr> = Inr b"
       "conflicting_nodes b = map fst (spec_recorded (retrieved_nodes state) (retrieved_nodes state))"
    using detect_typed [of "retrieved_nodes state" "retrieved_nodes state" None None] by blast
  have c: "\<exists>state'. check_contradictions state = Inr state'
        \<and> contradictions_found state' =
            map fst (spec_recorded (retrieved_nodes state) (retrieved_nodes state))
        \<and> (should_continue_reasoning state' = ''stop'' \<longleftrightarrow>
            length (spec_recorded (retrieved_nodes state) (retrieved_nodes state)) > 2)"
    using b by (simp add: check_contradictions_def Let_def should_continue_reasoning_def)
  from a c demo_duplicates show ?thesis by auto
qed

theorem conflicting_nodes_count_pairs_witness:
  "map_sum exn_str contradictions_found
     (check_contradictions
        ((reasoning_initial_state (demo_renv demo_conflicts []) ''r1'' ''Is it so?'' [])
           \<lparr> retrieved_nodes := combine_search_results demo_conflicts [] \<rparr>)) =
     Inr [''a'', ''a'', ''b'', ''b'']
   \<and> map_sum exn_str should_continue_reasoning
     (check_contradictions
        ((reasoning_initial_state (demo_renv demo_conflicts []) ''r1'' ''Is it so?'' [])
           \<lparr> retrieved_nodes := combine_search_results demo_conflicts [] \<rparr>)) = Inr ''stop''
   \<and> length (remdups [''a'', ''a'', ''b'', ''b'']) = 2"
proof -
  from conflicting_nodes_count_pairs
    [of "[]" "[]" None None
        "(reasoning_initial_state (demo_renv demo_conflicts []) ''r1'' ''Is it so?'' [])
           \<lparr> retrieved_nodes := combine_search_results demo_conflicts [] \<rparr>"]
  show ?thesis by auto
qed

end
